theory Spec2Isabelle
  imports Complex_Main "HOL-Library.Word"
begin

section \<open>JavaScript strings\<close>

text \<open>
  A JavaScript string is a sequence of UTF-16 code units; \<open>length\<close>, \<open>substring\<close>,
  \<open>split\<close>, \<open>trim\<close> and the regular expressions of the translation service all work
  on code units. \<open>js\<close> turns an ASCII literal into such a sequence.
\<close>

type_synonym cu = "16 word"
type_synonym jstring = "cu list"

definition js :: "string \<Rightarrow> jstring" where
  "js s = map of_char s"

text \<open>
  The white space of \<open>String.prototype.trim\<close> and of the class \<open>\s\<close>: the code units
  of WhiteSpace and LineTerminator.
\<close>

definition is_ws :: "cu \<Rightarrow> bool" where
  "is_ws c =
     (c = 0x09 \<or> c = 0x0A \<or> c = 0x0B \<or> c = 0x0C \<or> c = 0x0D \<or> c = 0x20 \<or> c = 0xA0 \<or>
      c = 0x1680 \<or> (0x2000 \<le> c \<and> c \<le> 0x200A) \<or> c = 0x2028 \<or> c = 0x2029 \<or>
      c = 0x202F \<or> c = 0x205F \<or> c = 0x3000 \<or> c = 0xFEFF)"

definition trim :: "jstring \<Rightarrow> jstring" where
  "trim s = rev (dropWhile is_ws (rev (dropWhile is_ws s)))"

text \<open>The test \<open>!s || s.trim().length === 0\<close> of the source.\<close>

definition blank :: "jstring \<Rightarrow> bool" where
  "blank s = (s = [] \<or> length (trim s) = 0)"

text \<open>\<open>s.split('|')[0] || s\<close>: the part before the first pipe, unless that part is empty.\<close>

definition before_pipe :: "jstring \<Rightarrow> jstring" where
  "before_pipe s = takeWhile (\<lambda>c. c \<noteq> 0x7C) s"

definition before_pipe_or_all :: "jstring \<Rightarrow> jstring" where
  "before_pipe_or_all s = (if before_pipe s \<noteq> [] then before_pipe s else s)"

section \<open>Regular expressions\<close>

text \<open>
  The regular expressions of the source use literals, character classes, sequence,
  alternation, the greedy quantifiers \<open>*\<close>, \<open>+\<close>, \<open>?\<close> and the anchor \<open>$\<close> (without the
  multiline flag). They are data here, and one backtracking matcher runs all of them the
  way the ECMAScript matcher does: alternatives left to right, a quantifier takes as many
  iterations as it can and gives them back one at a time, an iteration that consumes
  nothing is refused. The continuation \<open>k\<close> is the rest of the pattern.
\<close>

datatype cset = One cu | Range cu cu | Ws | Wordc | Union cset cset | Neg cset

fun cs_mem :: "cset \<Rightarrow> cu \<Rightarrow> bool" where
  "cs_mem (One a) c = (c = a)"
| "cs_mem (Range lo hi) c = (lo \<le> c \<and> c \<le> hi)"
| "cs_mem Ws c = is_ws c"
| "cs_mem Wordc c =
     ((0x30 \<le> c \<and> c \<le> 0x39) \<or> (0x41 \<le> c \<and> c \<le> 0x5A) \<or> c = 0x5F \<or> (0x61 \<le> c \<and> c \<le> 0x7A))"
| "cs_mem (Union a b) c = (cs_mem a c \<or> cs_mem b c)"
| "cs_mem (Neg a) c = (\<not> cs_mem a c)"

datatype rx = Chr cset | Seq rx rx | Alt rx rx | Star rx | Eps | Eol

function m :: "rx \<Rightarrow> jstring \<Rightarrow> (jstring \<Rightarrow> jstring option) \<Rightarrow> jstring option" where
  "m (Chr cs) s k = (case s of [] \<Rightarrow> None | c # t \<Rightarrow> if cs_mem cs c then k t else None)"
| "m (Seq a b) s k = m a s (\<lambda>t. m b t k)"
| "m (Alt a b) s k = (case m a s k of Some x \<Rightarrow> Some x | None \<Rightarrow> m b s k)"
| "m (Star r) s k =
     (case m r s (\<lambda>t. if length t < length s then m (Star r) t k else None) of
        Some x \<Rightarrow> Some x
      | None \<Rightarrow> k s)"
| "m Eps s k = k s"
| "m Eol s k = (if s = [] then k s else None)"
  by pat_completeness auto
termination
  by (relation "measures [\<lambda>(r, s, k). size r, \<lambda>(r, s, k). length s]") auto

text \<open>A match of \<open>r\<close> at the start of \<open>s\<close>: what is left of \<open>s\<close> after the match.\<close>

definition rmatch :: "rx \<Rightarrow> jstring \<Rightarrow> jstring option" where
  "rmatch r s = m r s Some"

text \<open>
  \<open>s.replace(/r/g, rep)\<close> with a replacement that has no \<open>$\<close> pattern: the leftmost
  match is replaced and the search goes on behind it; after an empty match the search
  moves one code unit on.
\<close>

function replace_all :: "rx \<Rightarrow> jstring \<Rightarrow> jstring \<Rightarrow> jstring" where
  "replace_all r rep s =
     (case rmatch r s of
        Some t \<Rightarrow>
          if length t < length s then rep @ replace_all r rep t
          else (case s of [] \<Rightarrow> rep | c # cs \<Rightarrow> rep @ c # replace_all r rep cs)
      | None \<Rightarrow> (case s of [] \<Rightarrow> [] | c # cs \<Rightarrow> c # replace_all r rep cs))"
  by pat_completeness auto
termination
  by (relation "measure (\<lambda>(r, rep, s). length s)") auto

text \<open>\<open>/r/.test(s)\<close>: a match at some position.\<close>

fun re_test :: "rx \<Rightarrow> jstring \<Rightarrow> bool" where
  "re_test r [] = (rmatch r [] \<noteq> None)"
| "re_test r (c # cs) = (rmatch r (c # cs) \<noteq> None \<or> re_test r cs)"

subsection \<open>Building blocks\<close>

definition Plus :: "rx \<Rightarrow> rx" where
  "Plus r = Seq r (Star r)"

definition Opt :: "rx \<Rightarrow> rx" where
  "Opt r = Alt r Eps"

definition lit :: "string \<Rightarrow> rx" where
  "lit s = foldr (\<lambda>c r. Seq (Chr (One (of_char c))) r) s Eps"

text \<open>
  Under the flag \<open>i\<close> an ASCII letter of the pattern matches both of its cases, and no
  code unit from 128 on is folded onto an ASCII one.
\<close>

definition ci :: "char \<Rightarrow> cset" where
  "ci c =
     (let n = (of_char c :: nat) in
      if 97 \<le> n \<and> n \<le> 122 then Union (One (of_nat n)) (One (of_nat (n - 32)))
      else if 65 \<le> n \<and> n \<le> 90 then Union (One (of_nat n)) (One (of_nat (n + 32)))
      else One (of_nat n))"

definition lit_ci :: "string \<Rightarrow> rx" where
  "lit_ci s = foldr (\<lambda>c r. Seq (Chr (ci c)) r) s Eps"

fun alt_of :: "rx list \<Rightarrow> rx" where
  "alt_of [] = Chr (Neg (Union Ws (Neg Ws)))"
| "alt_of [r] = r"
| "alt_of (r # rs) = Alt r (alt_of rs)"

definition non_ws :: cset where "non_ws = Neg Ws"
definition non_dot :: cset where "non_dot = Neg (One 0x2E)"
definition az_upper :: cset where "az_upper = Range 0x41 0x5A"
definition az_lower :: cset where "az_lower = Range 0x61 0x7A"
definition az_any :: cset where "az_any = Union az_lower az_upper"

section \<open>The normalizer \<open>stripHtml\<close>\<close>

subsection \<open>Its regular expressions, by source line\<close>

text \<open>Line 69: \<^verbatim>\<open>/https?:\/\/[^\s]+/g\<close>.\<close>
definition re_url :: rx where
  "re_url = Seq (lit ''http'') (Seq (Opt (lit ''s'')) (Seq (lit ''://'') (Plus (Chr non_ws))))"

text \<open>Line 70: \<^verbatim>\<open>/www\.[^\s]+/g\<close>.\<close>
definition re_www :: rx where
  "re_www = Seq (lit ''www.'') (Plus (Chr non_ws))"

text \<open>Line 71: \<^verbatim>\<open>/t\.co\/[^\s]+/g\<close>.\<close>
definition re_tco :: rx where
  "re_tco = Seq (lit ''t.co/'') (Plus (Chr non_ws))"

text \<open>Line 74: \<^verbatim>\<open>/source=(twitter|web|facebook|instagram|reddit|telegram)[^\s]*/gi\<close>.\<close>
definition re_source :: rx where
  "re_source =
     Seq (lit_ci ''source='')
       (Seq (alt_of (map lit_ci [''twitter'', ''web'', ''facebook'', ''instagram'', ''reddit'', ''telegram'']))
          (Star (Chr non_ws)))"

text \<open>The class \<^verbatim>\<open>[a-z_]\<close> under the flag \<open>i\<close>, and \<^verbatim>\<open>[^\s&]\<close>.\<close>
definition key_char :: cset where "key_char = Union az_any (One 0x5F)"
definition non_ws_amp :: cset where "non_ws_amp = Neg (Union Ws (One 0x26))"

text \<open>Line 75: \<^verbatim>\<open>/utm_[a-z_]+=[^\s&]*/gi\<close>.\<close>
definition re_utm :: rx where
  "re_utm = Seq (lit_ci ''utm_'') (Seq (Plus (Chr key_char)) (Seq (lit ''='') (Star (Chr non_ws_amp))))"

text \<open>Line 76: \<^verbatim>\<open>/ref=[^\s&]*/gi\<close>.\<close>
definition re_ref :: rx where
  "re_ref = Seq (lit_ci ''ref='') (Star (Chr non_ws_amp))"

text \<open>Line 77: \<^verbatim>\<open>/\?[a-z_]+=\w+(&[a-z_]+=\w+)*/gi\<close>.\<close>
definition re_query :: rx where
  "re_query =
     Seq (lit ''?'')
       (Seq (Plus (Chr key_char))
          (Seq (lit ''='')
             (Seq (Plus (Chr Wordc))
                (Star (Seq (lit ''&'') (Seq (Plus (Chr key_char)) (Seq (lit ''='') (Plus (Chr Wordc)))))))))"

text \<open>Lines 80 to 82: \<^verbatim>\<open>/RSVP:/gi\<close>, \<^verbatim>\<open>/Read more:/gi\<close>, \<^verbatim>\<open>/Click here:/gi\<close>.\<close>
definition re_rsvp :: rx where "re_rsvp = lit_ci ''RSVP:''"
definition re_read_more :: rx where "re_read_more = lit_ci ''Read more:''"
definition re_click_here :: rx where "re_click_here = lit_ci ''Click here:''"

text \<open>Line 83: an ellipsis character (U+2026) in brackets; line 84: \<^verbatim>\<open>/\[\.\.\.\]/g\<close>.\<close>
definition re_ellipsis :: rx where
  "re_ellipsis = Seq (lit ''['') (Seq (Chr (One 0x2026)) (lit '']''))"
definition re_dots :: rx where
  "re_dots = lit ''[...]''"

text \<open>Line 88: \<^verbatim>\<open>/\s+/g\<close>; line 89: \<^verbatim>\<open>/\n\s*\n/g\<close>; line 101: \<^verbatim>\<open>/<[^>]*>/g\<close>.\<close>
definition re_spaces :: rx where
  "re_spaces = Plus (Chr Ws)"
definition re_blank_lines :: rx where
  "re_blank_lines = Seq (Chr (One 0x0A)) (Seq (Star (Chr Ws)) (Chr (One 0x0A)))"
definition re_tag :: rx where
  "re_tag = Seq (lit ''<'') (Seq (Star (Chr (Neg (One 0x3E)))) (lit ''>''))"

subsection \<open>The function\<close>

text \<open>
  Lines 68 to 84, in the order of the source: every match of each expression is removed
  before the next expression is tried.
\<close>

definition removals :: "rx list" where
  "removals =
     [re_url, re_www, re_tco, re_source, re_utm, re_ref, re_query,
      re_rsvp, re_read_more, re_click_here, re_ellipsis, re_dots]"

definition remove_noise :: "jstring \<Rightarrow> jstring" where
  "remove_noise text = foldl (\<lambda>t r. replace_all r [] t) text removals"

text \<open>Lines 87 to 90.\<close>

definition clean_whitespace :: "jstring \<Rightarrow> jstring" where
  "clean_whitespace text = trim (replace_all re_blank_lines [0x0A] (replace_all re_spaces [0x20] text))"

text \<open>
  Lines 65 to 97, from the text content that cheerio extracted to the value returned by
  the \<open>try\<close> block.
\<close>

definition strip_text :: "jstring \<Rightarrow> jstring" where
  "strip_text text0 =
     (let text = clean_whitespace (remove_noise (before_pipe_or_all text0))
      in if length text < 10 then [] else text)"

text \<open>
  Lines 100 to 107, the \<open>catch\<close> block. A method call binds tighter than \<open>||\<close>: the
  left operand is \<open>html.replace(/<[^>]*>/g, ' ').split('|')[0]\<close>, and the right one is
  \<open>html.replace(/https?:\/\/[^\s]+/g, '').replace(/\s+/g, ' ').trim()\<close>.
\<close>

definition strip_catch :: "jstring \<Rightarrow> jstring" where
  "strip_catch html =
     (let text = before_pipe (replace_all re_tag [0x20] html)
      in if text \<noteq> [] then text
         else trim (replace_all re_spaces [0x20] (replace_all re_url [] html)))"

section \<open>Values, errors and the collaborators\<close>

text \<open>
  What \<open>JSON.parse\<close> and \<open>response.json()\<close> return is typed by a cast only, so the
  code meets any JSON value where it expects a string. A property that is absent reads as
  \<open>undefined\<close>, which is \<open>None\<close> here.
\<close>

datatype json = JNull | JBool bool | JNum rat | JStr jstring | JArr "json list"
  | JObj "(jstring \<times> json) list"

text \<open>An object is the list of its own properties, each key once.\<close>

datatype err = ApiError nat | EmptyTranslation | TypeError | SyntaxError | Undefined | External nat

datatype lang = TR | EN

datatype prompt = TranslatePrompt | SummarizeTrPrompt | SummarizeEnPrompt

record response =
  ok :: bool
  status :: nat
  json_body :: "err + json"

record message =
  content :: "jstring option"

record choice =
  message :: "message option"

record completion =
  choices :: "choice list"

text \<open>
  A promise-returning computation takes the state of the world outside (the two providers,
  the clock) and gives back that state and either the error it rejects with or the value
  it fulfils with.
\<close>

type_synonym ('w, 'a) io = "'w \<Rightarrow> (err + 'a) \<times> 'w"

text \<open>
  The collaborators, none of them code of the translation service: the proxy request of
  lines 13 to 32 with the text and the target language it carries, the chat completion
  with its system prompt and user content, \<open>setTimeout\<close>, cheerio (lines 57 to 63: the
  text content of the parsed document, \<open>None\<close> when cheerio throws), \<open>JSON.parse\<close>
  (\<open>None\<close> for a SyntaxError), \<open>toLowerCase\<close>, and the conversion of a string, an array
  or an object to a number that the comparison \<open>>\<close> performs (\<open>None\<close> for NaN).
\<close>

record 'w env =
  fetch_proxy :: "jstring \<Rightarrow> lang \<Rightarrow> ('w, response) io"
  openaiChatCompletion :: "prompt \<Rightarrow> jstring \<Rightarrow> ('w, completion) io"
  setTimeout :: "nat \<Rightarrow> 'w \<Rightarrow> 'w"
  cheerio_text :: "jstring \<Rightarrow> jstring option"
  json_parse :: "jstring \<Rightarrow> json option"
  toLowerCase :: "jstring \<Rightarrow> jstring"
  to_number :: "json \<Rightarrow> err + rat option"

subsection \<open>JavaScript's view of a JSON value\<close>

fun truthy :: "json option \<Rightarrow> bool" where
  "truthy None = False"
| "truthy (Some JNull) = False"
| "truthy (Some (JBool b)) = b"
| "truthy (Some (JNum q)) = (q \<noteq> 0)"
| "truthy (Some (JStr s)) = (s \<noteq> [])"
| "truthy (Some (JArr xs)) = True"
| "truthy (Some (JObj kvs)) = True"

text \<open>
  \<open>v.key\<close> for the keys \<open>translatedText\<close>, \<open>summary\<close> and \<open>sentiment\<close>, which no
  prototype defines: a TypeError on \<open>null\<close>, the own property of an object, \<open>undefined\<close>
  on every other value.
\<close>

fun get_prop :: "json \<Rightarrow> jstring \<Rightarrow> err + json option" where
  "get_prop JNull key = Inl TypeError"
| "get_prop (JObj kvs) key = Inr (map_of kvs key)"
| "get_prop v key = Inr None"

text \<open>\<open>v.length\<close> on a value that is neither \<open>null\<close> nor \<open>undefined\<close>.\<close>

fun get_length :: "json \<Rightarrow> json option" where
  "get_length (JStr s) = Some (JNum (of_nat (length s)))"
| "get_length (JArr xs) = Some (JNum (of_nat (length xs)))"
| "get_length (JObj kvs) = map_of kvs (js ''length'')"
| "get_length v = None"

text \<open>\<open>x > 10\<close>: \<open>x\<close> is converted to a number, and NaN is greater than nothing.\<close>

fun gt10 :: "'w env \<Rightarrow> json option \<Rightarrow> err + bool" where
  "gt10 env None = Inr False"
| "gt10 env (Some JNull) = Inr False"
| "gt10 env (Some (JBool b)) = Inr False"
| "gt10 env (Some (JNum q)) = Inr (10 < q)"
| "gt10 env (Some v) =
     (case to_number env v of
        Inl e \<Rightarrow> Inl e
      | Inr None \<Rightarrow> Inr False
      | Inr (Some q) \<Rightarrow> Inr (10 < q))"

text \<open>\<open>response.choices[0]?.message?.content || ''\<close>.\<close>

definition first_content :: "completion \<Rightarrow> jstring" where
  "first_content response =
     (case choices response of
        [] \<Rightarrow> []
      | c # cs \<Rightarrow>
          (case message c of
             None \<Rightarrow> []
           | Some msg \<Rightarrow> (case content msg of None \<Rightarrow> [] | Some s \<Rightarrow> s)))"

subsection \<open>\<open>stripHtml\<close>, lines 54 to 109\<close>

definition stripHtml :: "'w env \<Rightarrow> jstring \<Rightarrow> jstring" where
  "stripHtml env html =
     (case cheerio_text env html of
        Some text \<Rightarrow> strip_text text
      | None \<Rightarrow> strip_catch html)"

section \<open>The fast provider, lines 11 to 49\<close>

text \<open>
  The checks of lines 34 to 44 on a response. A \<open>translatedText\<close> that is truthy and
  not a string has no method \<open>trim\<close>: the call is a TypeError.
\<close>

definition libre_result :: "response \<Rightarrow> err + jstring" where
  "libre_result resp =
     (if \<not> ok resp then Inl (ApiError (status resp))
      else
        (case json_body resp of
           Inl e \<Rightarrow> Inl e
         | Inr data \<Rightarrow>
             (case get_prop data (js ''translatedText'') of
                Inl e \<Rightarrow> Inl e
              | Inr v \<Rightarrow>
                  if \<not> truthy v then Inl EmptyTranslation
                  else
                    (case v of
                       Some (JStr t) \<Rightarrow> if length (trim t) = 0 then Inl EmptyTranslation else Inr t
                     | _ \<Rightarrow> Inl TypeError))))"

definition translateWithLibreTranslate :: "'w env \<Rightarrow> jstring \<Rightarrow> lang \<Rightarrow> ('w, jstring) io" where
  "translateWithLibreTranslate env text targetLang w =
     (case fetch_proxy env text targetLang w of
        (Inl e, w') \<Rightarrow> (Inl e, w')
      | (Inr resp, w') \<Rightarrow> (libre_result resp, w'))"

section \<open>The retry controller, lines 209 to 229\<close>

text \<open>
  The \<open>for\<close> loop with its counter \<open>i\<close> and the variable \<open>lastError\<close>; delays are
  whole milliseconds. After the loop \<open>lastError\<close> is thrown, \<open>undefined\<close> when no
  attempt was made.
\<close>

function retry_loop ::
  "'w env \<Rightarrow> ('w, 'a) io \<Rightarrow> nat \<Rightarrow> nat \<Rightarrow> nat \<Rightarrow> err option \<Rightarrow> ('w, 'a) io" where
  "retry_loop env fn maxRetries initialDelay i lastError w =
     (if i < maxRetries then
        (case fn w of
           (Inr v, w') \<Rightarrow> (Inr v, w')
         | (Inl error, w') \<Rightarrow>
             retry_loop env fn maxRetries initialDelay (i + 1) (Some error)
               (if i < maxRetries - 1 then setTimeout env (initialDelay * 2 ^ i) w' else w'))
      else (Inl (case lastError of None \<Rightarrow> Undefined | Some e \<Rightarrow> e), w))"
  by pat_completeness auto
termination
  by (relation "measure (\<lambda>(env, fn, maxRetries, initialDelay, i, lastError, w). maxRetries - i)") auto

definition retryWithBackoff :: "'w env \<Rightarrow> ('w, 'a) io \<Rightarrow> nat \<Rightarrow> nat \<Rightarrow> ('w, 'a) io" where
  "retryWithBackoff env fn maxRetries initialDelay = retry_loop env fn maxRetries initialDelay 0 None"

section \<open>The translation orchestrator, lines 114 to 199\<close>

text \<open>
  Lines 140 to 151: the fast provider and the check of its output. \<open>Some\<close> is the value
  that the \<open>try\<close> block returns from the function; \<open>None\<close> goes on to the next tier.
\<close>

definition fast_tier :: "'w env \<Rightarrow> jstring \<Rightarrow> 'w \<Rightarrow> jstring option \<times> 'w" where
  "fast_tier env cleanText w =
     (case translateWithLibreTranslate env cleanText TR w of
        (Inl libreError, w') \<Rightarrow> (None, w')
      | (Inr libreTranslation, w') \<Rightarrow>
          if libreTranslation \<noteq> [] \<and>
             toLowerCase env libreTranslation \<noteq> toLowerCase env cleanText \<and>
             10 < length libreTranslation
          then (Some libreTranslation, w')
          else (None, w'))"

text \<open>Lines 154 to 176: the fallback provider and the check of its output.\<close>

definition fallback_tier :: "'w env \<Rightarrow> jstring \<Rightarrow> 'w \<Rightarrow> jstring option \<times> 'w" where
  "fallback_tier env cleanText w =
     (case openaiChatCompletion env TranslatePrompt cleanText w of
        (Inl openaiError, w') \<Rightarrow> (None, w')
      | (Inr response, w') \<Rightarrow>
          (let translation = first_content response
           in if translation \<noteq> [] \<and> 10 < length translation
              then (Some (stripHtml env translation), w')
              else (None, w')))"

text \<open>Lines 128 to 179, the body of the outer \<open>try\<close>.\<close>

definition translate_body :: "'w env \<Rightarrow> jstring \<Rightarrow> ('w, jstring) io" where
  "translate_body env text w =
     (if blank text then (Inr text, w)
      else
        (let cleanText = stripHtml env text
         in if blank cleanText then (Inr text, w)
            else
              (case fast_tier env cleanText w of
                 (Some translated, w1) \<Rightarrow> (Inr translated, w1)
               | (None, w1) \<Rightarrow>
                   (case fallback_tier env cleanText w1 of
                      (Some translated, w2) \<Rightarrow> (Inr translated, w2)
                    | (None, w2) \<Rightarrow> (Inr cleanText, w2)))))"

definition translateToTurkish :: "'w env \<Rightarrow> jstring \<Rightarrow> ('w, jstring) io" where
  "translateToTurkish env text w =
     (case translate_body env text w of
        (Inl error, w') \<Rightarrow> (Inr (stripHtml env text), w')
      | (Inr translated, w') \<Rightarrow> (Inr translated, w'))"

definition translateText :: "'w env \<Rightarrow> jstring \<Rightarrow> lang \<Rightarrow> ('w, jstring) io" where
  "translateText env text targetLang w =
     (case targetLang of
        EN \<Rightarrow> (Inr (stripHtml env text), w)
      | TR \<Rightarrow> translateToTurkish env text w)"

text \<open>
  \<open>Promise.all\<close>: the values in the order of the promises when every promise fulfils,
  the error of the first promise that rejects otherwise.
\<close>

fun promise_all :: "(err + 'a) list \<Rightarrow> err + 'a list" where
  "promise_all [] = Inr []"
| "promise_all (Inl e # ps) = Inl e"
| "promise_all (Inr v # ps) = (case promise_all ps of Inl e \<Rightarrow> Inl e | Inr vs \<Rightarrow> Inr (v # vs))"

text \<open>
  Lines 189 to 199. The translations of a batch run side by side, each one a chain of
  requests of its own: item \<open>i\<close> meets the world \<open>worlds i\<close>, the providers as they answer
  the requests of that item.
\<close>

definition translateBatch :: "'w env \<Rightarrow> jstring list \<Rightarrow> (nat \<Rightarrow> 'w) \<Rightarrow> jstring list" where
  "translateBatch env texts worlds =
     (case promise_all (map (\<lambda>(i, text). fst (translateToTurkish env text (worlds i))) (enumerate 0 texts)) of
        Inr translations \<Rightarrow> translations
      | Inl error \<Rightarrow> texts)"

section \<open>The summarization orchestrators, lines 236 to 451\<close>

record summaryWithSentiment =
  summary :: json
  sentiment :: json

definition positive :: json where "positive = JStr (js ''positive'')"
definition negative :: json where "negative = JStr (js ''negative'')"
definition neutral :: json where "neutral = JStr (js ''neutral'')"

text \<open>Lines 239 to 242: title and text joined by two line feeds, cut at 2000 code units.\<close>

definition make_content :: "jstring \<Rightarrow> jstring option \<Rightarrow> jstring" where
  "make_content title text =
     (let content' = (case text of
                        None \<Rightarrow> title
                      | Some t \<Rightarrow> if t \<noteq> [] then title @ [0x0A, 0x0A] @ t else title)
      in if 2000 < length content' then take 2000 content' @ js ''...'' else content')"

text \<open>Lines 250 to 287 and 392 to 425: the action that \<open>retryWithBackoff\<close> repeats.\<close>

definition ask_model :: "'w env \<Rightarrow> prompt \<Rightarrow> jstring \<Rightarrow> ('w, jstring) io" where
  "ask_model env p content' w =
     (case openaiChatCompletion env p content' w of
        (Inl e, w') \<Rightarrow> (Inl e, w')
      | (Inr response, w') \<Rightarrow> (Inr (first_content response), w'))"

text \<open>
  Lines 249 to 288 and 391 to 426: the answer of the model to a call of a summarizer,
  after at most three attempts.
\<close>

definition model_answer :: "'w env \<Rightarrow> prompt \<Rightarrow> jstring \<Rightarrow> jstring option \<Rightarrow> ('w, jstring) io" where
  "model_answer env p title text = retryWithBackoff env (ask_model env p (make_content title text)) 3 1000"

text \<open>Lines 293 and 431: \<^verbatim>\<open>/```json\n?|```\n?/g\<close>.\<close>

definition re_fence :: rx where
  "re_fence =
     Alt (Seq (lit ''```json'') (Opt (Chr (One 0x0A)))) (Seq (lit ''```'') (Opt (Chr (One 0x0A))))"

definition strip_fence :: "jstring \<Rightarrow> jstring" where
  "strip_fence result = trim (replace_all re_fence [] result)"

text \<open>
  Lines 332 and 436:
  \<open>['positive', 'negative', 'neutral'].includes(parsed.sentiment) ? parsed.sentiment : 'neutral'\<close>.
\<close>

definition coerce_sentiment :: "json option \<Rightarrow> json" where
  "coerce_sentiment v =
     (case v of
        None \<Rightarrow> neutral
      | Some x \<Rightarrow> if x \<in> set [positive, negative, neutral] then x else neutral)"

subsection \<open>The clean-up of the Turkish summary, lines 300 to 328\<close>

text \<open>
  Line 302:
  \<^verbatim>\<open>/\. [A-Z][a-z]+ (is|are|was|were|has|have|will|would|could|should|can|may|might|had|been|being)[^.]*\./g\<close>.
\<close>

definition re_aux_sentence :: rx where
  "re_aux_sentence =
     Seq (lit ''. '')
       (Seq (Chr az_upper)
          (Seq (Plus (Chr az_lower))
             (Seq (lit '' '')
                (Seq (alt_of (map lit [''is'', ''are'', ''was'', ''were'', ''has'', ''have'', ''will'',
                        ''would'', ''could'', ''should'', ''can'', ''may'', ''might'', ''had'', ''been'',
                        ''being'']))
                   (Seq (Star (Chr non_dot)) (lit ''.''))))))"

text \<open>
  Lines 303 to 319: \<^verbatim>\<open>/\. The [^.]*\./g\<close> and its sixteen siblings, in the order of the
  source; the last five have no space after the word.
\<close>

definition re_sentence :: "string \<Rightarrow> rx" where
  "re_sentence w = Seq (lit (''. '' @ w)) (Seq (Star (Chr non_dot)) (lit ''.''))"

definition starters :: "string list" where
  "starters =
     [''The '', ''This '', ''It '', ''According to '', ''In '', ''On '', ''At '', ''For '', ''With '',
      ''From '', ''By '', ''As '', ''However'', ''Additionally'', ''Furthermore'', ''Meanwhile'',
      ''Moreover'']"

text \<open>
  Line 321: \<^verbatim>\<open>/\s+(is|are|was|were|has|have|had|been|being)\s+[a-z][^.]*$/gi\<close>;
  line 322: \<^verbatim>\<open>/\s+(the|this|that|these|those|it|he|she|they)\s+[a-z][^.]*$/gi\<close>;
  line 324: \<^verbatim>\<open>/\s+[A-Z][a-z]+\s*$/g\<close>.
\<close>

definition re_tail :: "string list \<Rightarrow> rx" where
  "re_tail ws =
     Seq (Plus (Chr Ws))
       (Seq (alt_of (map lit_ci ws))
          (Seq (Plus (Chr Ws)) (Seq (Chr az_any) (Seq (Star (Chr non_dot)) Eol))))"

definition re_tail_verb :: rx where
  "re_tail_verb = re_tail [''is'', ''are'', ''was'', ''were'', ''has'', ''have'', ''had'', ''been'', ''being'']"

definition re_tail_pronoun :: rx where
  "re_tail_pronoun =
     re_tail [''the'', ''this'', ''that'', ''these'', ''those'', ''it'', ''he'', ''she'', ''they'']"

definition re_tail_word :: rx where
  "re_tail_word =
     Seq (Plus (Chr Ws)) (Seq (Chr az_upper) (Seq (Plus (Chr az_lower)) (Seq (Star (Chr Ws)) Eol)))"

text \<open>Line 327: \<^verbatim>\<open>/\.+/g\<close>; line 328: \<^verbatim>\<open>/\.\s*$/g\<close>.\<close>

definition re_dot_run :: rx where
  "re_dot_run = Plus (Chr (One 0x2E))"

definition re_final_dot :: rx where
  "re_final_dot = Seq (lit ''.'') (Seq (Star (Chr Ws)) Eol)"

definition scrub :: "jstring \<Rightarrow> jstring" where
  "scrub s =
     (let s1 = replace_all re_aux_sentence (js ''.'') s;
          s2 = foldl (\<lambda>t w. replace_all (re_sentence w) (js ''.'') t) s1 starters;
          s3 = replace_all re_tail_verb [] s2;
          s4 = replace_all re_tail_pronoun [] s3;
          s5 = replace_all re_tail_word [] s4;
          s6 = trim s5;
          s7 = replace_all re_dot_run (js ''.'') s6
      in replace_all re_final_dot (js ''.'') s7)"

subsection \<open>\<open>summarizeAndTranslate\<close>, lines 236 to 371\<close>

text \<open>
  Lines 293 to 333, the inner \<open>try\<close> up to its \<open>return\<close>. \<open>parsed.summary || title\<close>
  may be any truthy JSON value; only a string has the method \<open>replace\<close>.
\<close>

definition parse_tr :: "'w env \<Rightarrow> jstring \<Rightarrow> jstring \<Rightarrow> err + summaryWithSentiment" where
  "parse_tr env title result =
     (case json_parse env (strip_fence result) of
        None \<Rightarrow> Inl SyntaxError
      | Some parsed \<Rightarrow>
          (case get_prop parsed (js ''summary'') of
             Inl e \<Rightarrow> Inl e
           | Inr sv \<Rightarrow>
               (case (if truthy sv then sv else Some (JStr title)) of
                  Some (JStr s) \<Rightarrow>
                    (let cleanSummary = scrub s
                     in case get_prop parsed (js ''sentiment'') of
                          Inl e \<Rightarrow> Inl e
                        | Inr sent \<Rightarrow>
                            Inr \<lparr>summary =
                                   JStr (if cleanSummary \<noteq> [] \<and> 10 < length cleanSummary
                                         then cleanSummary else title),
                                 sentiment = coerce_sentiment sent\<rparr>)
                | _ \<Rightarrow> Inl TypeError)))"

text \<open>Lines 334 to 341, the inner \<open>catch\<close>.\<close>

definition parse_failed :: "jstring \<Rightarrow> err \<Rightarrow> err + summaryWithSentiment" where
  "parse_failed result parseError =
     (if result \<noteq> [] \<and> 10 < length result then Inr \<lparr>summary = JStr result, sentiment = neutral\<rparr>
      else Inl parseError)"

text \<open>Lines 238 to 341, the body of the outer \<open>try\<close>, for either language.\<close>

definition summarize_body ::
  "'w env \<Rightarrow> prompt \<Rightarrow> (jstring \<Rightarrow> err + summaryWithSentiment) \<Rightarrow> jstring \<Rightarrow> jstring option \<Rightarrow>
   ('w, summaryWithSentiment) io" where
  "summarize_body env p parse title text w =
     (let content' = make_content title text
      in if blank content' then (Inr \<lparr>summary = JStr title, sentiment = neutral\<rparr>, w)
         else
           (case retryWithBackoff env (ask_model env p content') 3 1000 w of
              (Inl e, w') \<Rightarrow> (Inl e, w')
            | (Inr result, w') \<Rightarrow>
                (case parse result of
                   Inr r \<Rightarrow> (Inr r, w')
                 | Inl parseError \<Rightarrow> (parse_failed result parseError, w'))))"

text \<open>Line 356: the twelve letters that English does not have.\<close>

definition re_turkish :: rx where
  "re_turkish =
     Chr (foldr Union (map One [0xFC, 0x11F, 0x131, 0x15F, 0xF6, 0xE7, 0xDC, 0x11E, 0x130, 0x15E, 0xD6])
            (One 0xC7))"

text \<open>Lines 346 to 369, the outer \<open>catch\<close>.\<close>

definition title_fallback :: "'w env \<Rightarrow> jstring \<Rightarrow> 'w \<Rightarrow> summaryWithSentiment \<times> 'w" where
  "title_fallback env title w =
     (case retryWithBackoff env (translateToTurkish env title) 2 500 w of
        (Inl translationError, w') \<Rightarrow> (\<lparr>summary = JStr title, sentiment = neutral\<rparr>, w')
      | (Inr translatedTitle, w') \<Rightarrow>
          (let isDifferent = (toLowerCase env translatedTitle \<noteq> toLowerCase env title);
               isLongEnough = (8 < length translatedTitle);
               hasNonEnglishChars = re_test re_turkish translatedTitle
           in if translatedTitle \<noteq> [] \<and> (isDifferent \<or> isLongEnough \<or> hasNonEnglishChars)
              then (\<lparr>summary = JStr translatedTitle, sentiment = neutral\<rparr>, w')
              else (\<lparr>summary = JStr title, sentiment = neutral\<rparr>, w')))"

definition summarizeAndTranslate ::
  "'w env \<Rightarrow> jstring \<Rightarrow> jstring option \<Rightarrow> ('w, summaryWithSentiment) io" where
  "summarizeAndTranslate env title text w =
     (case summarize_body env SummarizeTrPrompt (parse_tr env title) title text w of
        (Inr r, w') \<Rightarrow> (Inr r, w')
      | (Inl error, w') \<Rightarrow> (case title_fallback env title w' of (r, w'') \<Rightarrow> (Inr r, w'')))"

subsection \<open>\<open>summarizeInEnglish\<close>, lines 378 to 451\<close>

text \<open>
  Lines 431 to 437. The summary is kept when \<open>parsed.summary && parsed.summary.length > 10\<close>
  holds, whatever kind of value it is.
\<close>

definition parse_en :: "'w env \<Rightarrow> jstring \<Rightarrow> jstring \<Rightarrow> err + summaryWithSentiment" where
  "parse_en env title result =
     (case json_parse env (strip_fence result) of
        None \<Rightarrow> Inl SyntaxError
      | Some parsed \<Rightarrow>
          (case get_prop parsed (js ''summary'') of
             Inl e \<Rightarrow> Inl e
           | Inr None \<Rightarrow>
               (case get_prop parsed (js ''sentiment'') of
                  Inl e \<Rightarrow> Inl e
                | Inr sent \<Rightarrow> Inr \<lparr>summary = JStr title, sentiment = coerce_sentiment sent\<rparr>)
           | Inr (Some sv) \<Rightarrow>
               (case (if truthy (Some sv) then gt10 env (get_length sv) else Inr False) of
                  Inl e \<Rightarrow> Inl e
                | Inr long \<Rightarrow>
                    (case get_prop parsed (js ''sentiment'') of
                       Inl e \<Rightarrow> Inl e
                     | Inr sent \<Rightarrow>
                         Inr \<lparr>summary = (if long then sv else JStr title),
                              sentiment = coerce_sentiment sent\<rparr>))))"

definition summarizeInEnglish ::
  "'w env \<Rightarrow> jstring \<Rightarrow> jstring option \<Rightarrow> ('w, summaryWithSentiment) io" where
  "summarizeInEnglish env title text w =
     (case summarize_body env SummarizeEnPrompt (parse_en env title) title text w of
        (Inr r, w') \<Rightarrow> (Inr r, w')
      | (Inl error, w') \<Rightarrow> (Inr \<lparr>summary = JStr title, sentiment = neutral\<rparr>, w'))"

section \<open>Worlds to run the service in\<close>

text \<open>
  A world that counts the requests made and records the delays waited. In
  \<open>offline_env\<close> both providers reject every request, with an error that carries the
  number of the request; the inputs it is run on are free of markup, so the text content
  of the parsed document is the input itself; letters are lowered in ASCII.
\<close>

type_synonym world = "nat \<times> nat list"

definition ascii_lower :: "jstring \<Rightarrow> jstring" where
  "ascii_lower s = map (\<lambda>c. if 0x41 \<le> c \<and> c \<le> 0x5A then c + 0x20 else c) s"

definition offline_env :: "world env" where
  "offline_env =
     \<lparr>fetch_proxy = (\<lambda>text targetLang (n, slept). (Inl (External n), (n + 1, slept))),
      openaiChatCompletion = (\<lambda>p text (n, slept). (Inl (External n), (n + 1, slept))),
      setTimeout = (\<lambda>delay (n, slept). (n, slept @ [delay])),
      cheerio_text = Some,
      json_parse = (\<lambda>s. None),
      toLowerCase = ascii_lower,
      to_number = (\<lambda>v. Inr None)\<rparr>"

text \<open>
  \<open>model_env answer parsed\<close>: the fast provider is down, the model answers every
  request with the text \<open>answer\<close>, and \<open>JSON.parse\<close> reads that text as \<open>parsed\<close>.
\<close>

definition reply :: "jstring \<Rightarrow> completion" where
  "reply s = \<lparr>choices = [\<lparr>message = Some \<lparr>content = Some s\<rparr>\<rparr>]\<rparr>"

definition model_env :: "jstring \<Rightarrow> json \<Rightarrow> world env" where
  "model_env answer parsed =
     offline_env
       \<lparr>openaiChatCompletion := (\<lambda>p text (n, slept). (Inr (reply answer), (n + 1, slept))),
        json_parse := (\<lambda>s. if s = answer then Some parsed else None)\<rparr>"

text \<open>
  \<open>proxy_env\<close>: the model is down, and the fast provider rejects the first request of a
  world and answers every later one.
\<close>

definition proxy_env :: "world env" where
  "proxy_env =
     offline_env
       \<lparr>fetch_proxy := (\<lambda>text targetLang (n, slept).
          (if n = 0 then Inl (External 0)
           else Inr \<lparr>ok = True, status = 200,
                     json_body = Inr (JObj [(js ''translatedText'', JStr (js ''[tr] '' @ text))])\<rparr>,
           (n + 1, slept)))\<rparr>"

text \<open>\<open>no_parser_env\<close>: cheerio throws on every input.\<close>

definition no_parser_env :: "world env" where
  "no_parser_env = offline_env\<lparr>cheerio_text := (\<lambda>html. None)\<rparr>"

text \<open>Answers of the model, and what \<open>JSON.parse\<close> makes of them.\<close>

definition raw_ok :: jstring where
  \<open>raw_ok = js ''{"summary": "ok", "sentiment": "positive"}''\<close>

definition parsed_ok :: json where
  "parsed_ok = JObj [(js ''summary'', JStr (js ''ok'')), (js ''sentiment'', JStr (js ''positive''))]"

definition raw_loud :: jstring where
  \<open>raw_loud = js ''{"summary": "Bitcoin rose sharply today", "sentiment": "Positive!"}''\<close>

definition parsed_loud :: json where
  "parsed_loud =
     JObj [(js ''summary'', JStr (js ''Bitcoin rose sharply today'')),
           (js ''sentiment'', JStr (js ''Positive!''))]"

definition raw_list :: jstring where
  \<open>raw_list = js ''{"summary": [1, 2, 3, 4, 5, 6, 7, 8, 9, 10, 11], "sentiment": "neutral"}''\<close>

definition parsed_list :: json where
  "parsed_list =
     JObj [(js ''summary'', JArr (map JNum [1, 2, 3, 4, 5, 6, 7, 8, 9, 10, 11])),
           (js ''sentiment'', JStr (js ''neutral''))]"

definition raw_object :: jstring where
  \<open>raw_object = js ''{"summary": {"text": "ETH is up", "length": 11}, "sentiment": "positive"}''\<close>

definition parsed_object :: json where
  "parsed_object =
     JObj [(js ''summary'', JObj [(js ''text'', JStr (js ''ETH is up'')), (js ''length'', JNum 11)]),
           (js ''sentiment'', JStr (js ''positive''))]"

definition raw_numeric :: jstring where
  \<open>raw_numeric = js ''{"summary": "Bitcoin rose sharply today", "sentiment": 1}''\<close>

definition parsed_numeric :: json where
  "parsed_numeric =
     JObj [(js ''summary'', JStr (js ''Bitcoin rose sharply today'')), (js ''sentiment'', JNum 1)]"

definition raw_missing :: jstring where
  \<open>raw_missing = js ''{"summary": "Bitcoin rose sharply today"}''\<close>

definition parsed_missing :: json where
  "parsed_missing = JObj [(js ''summary'', JStr (js ''Bitcoin rose sharply today''))]"


definition demo_texts :: "jstring list" where
  "demo_texts = [js ''Bitcoin hits a new high'', js ''Ethereum falls again today'']"

section \<open>Notions for the proofs\<close>

text \<open>
  A text is tidy when its only white space is single spaces, each followed by something
  that is not white space: what line 88 leaves.
\<close>

fun tidy :: "jstring \<Rightarrow> bool" where
  "tidy [] = True"
| "tidy [c] = (if is_ws c then c = 0x20 else True)"
| "tidy (c # d # s) = ((if is_ws c then c = 0x20 \<and> \<not> is_ws d else True) \<and> tidy (d # s))"

text \<open>
  A syntactic check that an expression can only match at a code unit that is not white
  space: it starts with a class that lists such code units.
\<close>

fun cs_no_ws :: "cset \<Rightarrow> bool" where
  "cs_no_ws (One a) = (\<not> is_ws a)"
| "cs_no_ws (Union a b) = (cs_no_ws a \<and> cs_no_ws b)"
| "cs_no_ws cs = False"

fun starts_no_ws :: "rx \<Rightarrow> bool" where
  "starts_no_ws (Chr cs) = cs_no_ws cs"
| "starts_no_ws (Seq a b) = starts_no_ws a"
| "starts_no_ws (Alt a b) = (starts_no_ws a \<and> starts_no_ws b)"
| "starts_no_ws r = False"

text \<open>
  A text has noise when lines 66 to 84 would change it: a pipe cuts it, or one of the
  expressions of \<open>removals\<close> matches somewhere in it.
\<close>

definition has_noise :: "jstring \<Rightarrow> bool" where
  "has_noise text = (before_pipe_or_all text \<noteq> text \<or> list_ex (\<lambda>r. re_test r text) removals)"

section \<open>The retry controller\<close>

declare retry_loop.simps [simp del]

lemma retry_loop_succeeds:
  assumes "k < n" and "fn (S k) = (Inr v, w')"
    and "\<forall>j<k. fn (S j) = (Inl (E j), T j)"
    and "\<forall>j<k. S (j + 1) = setTimeout env (d * 2 ^ j) (T j)"
  shows "i \<le> k \<Longrightarrow> retry_loop env fn n d i le (S i) = (Inr v, w')"
proof (induction "k - i" arbitrary: i le)
  case 0
  then have "i = k" by simp
  with assms(1,2) show ?case by (subst retry_loop.simps) simp
next
  case (Suc x)
  then have lt: "i < k" by simp
  with assms(1) have "i < n" "i < n - 1" by simp_all
  moreover from lt assms(3) have "fn (S i) = (Inl (E i), T i)" by simp
  moreover from lt assms(4) have "setTimeout env (d * 2 ^ i) (T i) = S (i + 1)" by simp
  moreover from Suc lt have "retry_loop env fn n d (i + 1) (Some (E i)) (S (i + 1)) = (Inr v, w')"
    by simp
  ultimately show ?case by (subst retry_loop.simps) simp
qed

lemma retry_loop_exhausted:
  assumes "\<forall>j<n. fn (S j) = (Inl (E j), T j)"
    and "\<forall>j. j + 1 < n \<longrightarrow> S (j + 1) = setTimeout env (d * 2 ^ j) (T j)"
  shows "i < n \<Longrightarrow> retry_loop env fn n d i le (S i) = (Inl (E (n - 1)), T (n - 1))"
proof (induction "n - i" arbitrary: i le)
  case 0
  then show ?case by simp
next
  case (Suc x)
  from Suc.prems assms(1) have f: "fn (S i) = (Inl (E i), T i)" by simp
  show ?case
  proof (cases "i + 1 < n")
    case True
    with assms(2) have "setTimeout env (d * 2 ^ i) (T i) = S (i + 1)" by simp
    moreover from Suc True
    have "retry_loop env fn n d (i + 1) (Some (E i)) (S (i + 1)) = (Inl (E (n - 1)), T (n - 1))"
      by simp
    moreover from True have "i < n - 1" by simp
    ultimately show ?thesis using f Suc.prems by (subst retry_loop.simps) simp
  next
    case False
    with Suc.prems have eq: "i = n - 1" "\<not> i < n - 1" "\<not> i + 1 < n" by simp_all
    have "retry_loop env fn n d (i + 1) (Some (E i)) (T i) = (Inl (E i), T i)"
      using eq by (subst retry_loop.simps) simp
    then show ?thesis using f Suc.prems eq by (subst retry_loop.simps) simp
  qed
qed

text \<open>
  C4. Let the first \<open>k\<close> attempts fail: attempt \<open>j\<close> starts in the world \<open>S j\<close>, rejects
  with \<open>E j\<close> and leaves the world \<open>T j\<close>, and unless it was the last attempt allowed, the
  next attempt starts after a wait of \<open>initialDelay * 2 ^ j\<close> from there. If then attempt
  \<open>k\<close> is still allowed and fulfils with \<open>v\<close>, \<open>retryWithBackoff\<close> fulfils with \<open>v\<close> in
  the very world that attempt left (nothing is tried or waited for after it). If
  instead all \<open>maxRetries\<close> attempts failed, \<open>retryWithBackoff\<close> rejects with the error
  of the last attempt, in the world that attempt left (no wait follows it).
\<close>

theorem retry_schedule:
  assumes "1 \<le> maxRetries" and "k \<le> maxRetries"
    and "S 0 = w0"
    and "\<forall>j<k. fn (S j) = (Inl (E j), T j)"
    and "\<forall>j<k. j + 1 < maxRetries \<longrightarrow> S (j + 1) = setTimeout env (initialDelay * 2 ^ j) (T j)"
  shows "(k < maxRetries \<and> fn (S k) = (Inr v, w') \<longrightarrow>
            retryWithBackoff env fn maxRetries initialDelay w0 = (Inr v, w')) \<and>
         (k = maxRetries \<longrightarrow>
            retryWithBackoff env fn maxRetries initialDelay w0 =
              (Inl (E (maxRetries - 1)), T (maxRetries - 1)))"
proof (intro conjI impI)
  assume a: "k < maxRetries \<and> fn (S k) = (Inr v, w')"
  then have "\<forall>j<k. S (j + 1) = setTimeout env (initialDelay * 2 ^ j) (T j)"
    using assms(5) by auto
  with a assms(4) have "retry_loop env fn maxRetries initialDelay 0 None (S 0) = (Inr v, w')"
    by (intro retry_loop_succeeds[where k = k and E = E and T = T]) auto
  then show "retryWithBackoff env fn maxRetries initialDelay w0 = (Inr v, w')"
    by (simp add: retryWithBackoff_def assms(3))
next
  assume a: "k = maxRetries"
  then have "\<forall>j. j + 1 < maxRetries \<longrightarrow> S (j + 1) = setTimeout env (initialDelay * 2 ^ j) (T j)"
    using assms(5) by auto
  with a assms(1,4)
  have "retry_loop env fn maxRetries initialDelay 0 None (S 0) =
          (Inl (E (maxRetries - 1)), T (maxRetries - 1))"
    by (intro retry_loop_exhausted) auto
  then show "retryWithBackoff env fn maxRetries initialDelay w0 =
               (Inl (E (maxRetries - 1)), T (maxRetries - 1))"
    by (simp add: retryWithBackoff_def assms(3))
qed

text \<open>
  Three attempts with an initial delay of 1000 ms against a provider that is down: the
  waits are 1000 ms and 2000 ms, and the error of the third request comes out.
\<close>

theorem retry_schedule_witness:
  "retryWithBackoff offline_env (ask_model offline_env SummarizeTrPrompt (js ''ETH surges'')) 3 1000 (0, []) =
     (Inl (External 2), (3, [1000, 2000]))"
proof -
  let ?S = "\<lambda>j::nat. (j, map (\<lambda>i. 1000 * 2 ^ i) [0..<j])"
  let ?T = "\<lambda>j::nat. (j + 1, map (\<lambda>i. 1000 * 2 ^ i) [0..<j])"
  have fails: "\<forall>j<3. ask_model offline_env SummarizeTrPrompt (js ''ETH surges'') (?S j) =
                  (Inl (External j), ?T j)"
    by (simp add: ask_model_def offline_env_def)
  have waits: "\<forall>j<3. j + 1 < 3 \<longrightarrow> ?S (j + 1) = setTimeout offline_env (1000 * 2 ^ j) (?T j)"
    by (simp add: offline_env_def)
  have "retryWithBackoff offline_env (ask_model offline_env SummarizeTrPrompt (js ''ETH surges'')) 3 1000 (0, []) =
          (Inl (External (3 - 1)), ?T (3 - 1))"
    using retry_schedule[where maxRetries = 3 and k = 3 and S = ?S and T = ?T and E = External
        and env = offline_env and initialDelay = 1000
        and fn = "ask_model offline_env SummarizeTrPrompt (js ''ETH surges'')" and ?w0.0 = "(0, [])",
        OF _ _ _ fails waits]
    by simp
  then show ?thesis by (simp add: numeral_2_eq_2 upt_rec)
qed

text \<open>
  Every run of \<open>retryWithBackoff\<close> is of one of the two kinds: some number \<open>k\<close> of
  attempts fail, with the waits in between, and then either \<open>k\<close> is \<open>maxRetries\<close> or
  attempt \<open>k\<close> fulfils.
\<close>

lemma retry_run_from:
  fixes fn :: "('w, 'a) io"
  shows "i \<le> n \<Longrightarrow>
   \<exists>k S T E. i \<le> k \<and> k \<le> n \<and> S i = w \<and>
     (\<forall>j. i \<le> j \<and> j < k \<longrightarrow> fn (S j) = (Inl (E j), T j)) \<and>
     (\<forall>j. i \<le> j \<and> j < k \<and> j + 1 < n \<longrightarrow> S (j + 1) = setTimeout env (d * 2 ^ j) (T j)) \<and>
     (k < n \<longrightarrow> (\<exists>v w'. fn (S k) = (Inr v, w')))"
proof (induction "n - i" arbitrary: i w)
  case 0
  then have "i = n" by simp
  show ?case
    apply (rule exI[of _ n], rule exI[of _ "\<lambda>j. w"], rule exI[of _ "\<lambda>j. w"],
        rule exI[of _ "\<lambda>j. Undefined"])
    using \<open>i = n\<close> by auto
next
  case (Suc x)
  then have lt: "i < n" by simp
  obtain a w' where f: "fn w = (a, w')" by (cases "fn w")
  show ?case
  proof (cases a)
    case (Inr v)
    show ?thesis
      apply (rule exI[of _ i], rule exI[of _ "\<lambda>j. w"], rule exI[of _ "\<lambda>j. w"],
          rule exI[of _ "\<lambda>j. Undefined"])
      using f lt Inr by auto
  next
    case (Inl e)
    let ?w = "if i + 1 < n then setTimeout env (d * 2 ^ i) w' else w'"
    from Suc lt have "x = n - (i + 1)" "i + 1 \<le> n" by simp_all
    from Suc.hyps(1)[OF this, of ?w]
    obtain k S T E where h: "i + 1 \<le> k" "k \<le> n" "S (i + 1) = ?w"
      "\<forall>j. i + 1 \<le> j \<and> j < k \<longrightarrow> fn (S j) = (Inl (E j), T j)"
      "\<forall>j. i + 1 \<le> j \<and> j < k \<and> j + 1 < n \<longrightarrow> S (j + 1) = setTimeout env (d * 2 ^ j) (T j)"
      "k < n \<longrightarrow> (\<exists>v w'. fn (S k) = (Inr v, w'))"
      by blast
    let ?S = "S(i := w)" and ?T = "T(i := w')" and ?E = "E(i := e)"
    have "\<forall>j. i \<le> j \<and> j < k \<longrightarrow> fn (?S j) = (Inl (?E j), ?T j)"
      using h(4) f Inl by auto
    moreover have "\<forall>j. i \<le> j \<and> j < k \<and> j + 1 < n \<longrightarrow> ?S (j + 1) = setTimeout env (d * 2 ^ j) (?T j)"
      using h(3,5) by auto
    moreover have "k < n \<longrightarrow> (\<exists>v w'. fn (?S k) = (Inr v, w'))"
      using h(1,6) by auto
    ultimately show ?thesis
      apply -
      apply (rule exI[of _ k], rule exI[of _ ?S], rule exI[of _ ?T], rule exI[of _ ?E])
      using h(1,2) by auto
  qed
qed

lemma retry_run_exists:
  fixes fn :: "('w, 'a) io"
  shows "\<exists>k S T E. k \<le> maxRetries \<and> S 0 = w \<and>
     (\<forall>j<k. fn (S j) = (Inl (E j), T j)) \<and>
     (\<forall>j<k. j + 1 < maxRetries \<longrightarrow> S (j + 1) = setTimeout env (initialDelay * 2 ^ j) (T j)) \<and>
     (k < maxRetries \<longrightarrow> (\<exists>v w'. fn (S k) = (Inr v, w')))"
proof -
  from retry_run_from[of 0 maxRetries w fn env initialDelay]
  obtain k S T E where h: "k \<le> maxRetries" "S 0 = w"
    "\<forall>j. 0 \<le> j \<and> j < k \<longrightarrow> fn (S j) = (Inl (E j), T j)"
    "\<forall>j. 0 \<le> j \<and> j < k \<and> j + 1 < maxRetries \<longrightarrow>
       S (j + 1) = setTimeout env (initialDelay * 2 ^ j) (T j)"
    "k < maxRetries \<longrightarrow> (\<exists>v w'. fn (S k) = (Inr v, w'))"
    by blast
  show ?thesis
    apply (rule exI[of _ k], rule exI[of _ S], rule exI[of _ T], rule exI[of _ E])
    using h by auto
qed

section \<open>No orchestrator rejects\<close>

text \<open>
  Every error raised inside an orchestrator (a provider that rejects, a response that is
  not as expected, a parse failure, a TypeError) is caught by one of its \<open>try\<close> blocks:
  the promise it returns is fulfilled.
\<close>

lemma translate_body_fulfils: "\<exists>r w'. translate_body env text w = (Inr r, w')"
  unfolding translate_body_def Let_def by (simp split: prod.splits option.splits)

lemma translateToTurkish_fulfils: "\<exists>r w'. translateToTurkish env text w = (Inr r, w')"
  unfolding translateToTurkish_def by (simp split: prod.splits sum.splits)

lemma translateText_fulfils: "\<exists>r w'. translateText env text targetLang w = (Inr r, w')"
  unfolding translateText_def using translateToTurkish_fulfils[of env "text" w]
  by (cases targetLang) simp_all

lemma summarizeAndTranslate_fulfils: "\<exists>r w'. summarizeAndTranslate env title text w = (Inr r, w')"
  unfolding summarizeAndTranslate_def by (simp split: prod.splits sum.splits)

lemma summarizeInEnglish_fulfils: "\<exists>r w'. summarizeInEnglish env title text w = (Inr r, w')"
  unfolding summarizeInEnglish_def by (simp split: prod.splits sum.splits)


lemma retry_first_attempt:
  "fn w = (Inr v, w') \<Longrightarrow> 0 < maxRetries \<Longrightarrow>
     retryWithBackoff env fn maxRetries initialDelay w = (Inr v, w')"
  unfolding retryWithBackoff_def by (subst retry_loop.simps) simp

text \<open>
  C1. The four orchestrators never reject, but \<open>summarizeInEnglish\<close> does not always
  fulfil with a value of its declared type \<open>SummaryWithSentiment\<close>, whose \<open>summary\<close> is a
  string: when the model answers with a JSON object whose \<open>summary\<close> is an array of
  eleven elements, line 435 finds it truthy and of a length above 10 and returns the array
  as the summary.
\<close>

theorem summarizeInEnglish_returns_array:
  "summarizeInEnglish (model_env raw_list parsed_list) (js ''ETH surges'') None (0, []) =
     (Inr \<lparr>summary = JArr (map JNum [1, 2, 3, 4, 5, 6, 7, 8, 9, 10, 11]), sentiment = neutral\<rparr>,
      (1, []))"
  by code_simp

text \<open>
  C10. With the non-empty title \<open>ETH surges\<close>, \<open>summarizeInEnglish\<close> returns a summary
  that is no string at all when the model's \<open>summary\<close> is an object with a property
  \<open>length\<close> above 10: line 435 reads \<open>parsed.summary.length\<close> whatever the kind of the
  value. (\<open>summarizeAndTranslate\<close> calls \<open>replace\<close> on the summary, which only a string
  has, and falls back to the title.)
\<close>

theorem summarizeInEnglish_returns_object:
  "summarizeInEnglish (model_env raw_object parsed_object) (js ''ETH surges'') None (0, []) =
     (Inr \<lparr>summary = JObj [(js ''text'', JStr (js ''ETH is up'')), (js ''length'', JNum 11)],
           sentiment = positive\<rparr>,
      (1, []))"
  by code_simp

text \<open>
  The extent of the defect, for a title that is not empty: the summary of
  \<open>summarizeAndTranslate\<close> is always a non-empty string, and the summary of
  \<open>summarizeInEnglish\<close> is a non-empty string unless it is an array or an object of the
  model.
\<close>

lemma parse_tr_summary:
  "title \<noteq> [] \<Longrightarrow> parse_tr env title result = Inr r \<Longrightarrow> \<exists>s. summary r = JStr s \<and> s \<noteq> []"
  unfolding parse_tr_def Let_def
  by (auto split: option.splits sum.splits json.splits if_splits)

lemma title_fallback_summary:
  "title \<noteq> [] \<Longrightarrow> title_fallback env title w = (r, w') \<Longrightarrow> \<exists>s. summary r = JStr s \<and> s \<noteq> []"
  unfolding title_fallback_def Let_def
  by (auto split: prod.splits sum.splits if_splits)

lemma summarize_body_result:
  assumes "summarize_body env p parse title text w = (Inr r, w')"
  shows "r = \<lparr>summary = JStr title, sentiment = neutral\<rparr> \<or>
         (\<exists>result. parse result = Inr r) \<or>
         (\<exists>result. 10 < length result \<and> r = \<lparr>summary = JStr result, sentiment = neutral\<rparr>)"
  using assms unfolding summarize_body_def Let_def parse_failed_def
  by (auto split: if_splits prod.splits sum.splits)

lemma summarize_body_summary:
  assumes "title \<noteq> []"
    and "summarize_body env p parse title text w = (Inr r, w')"
    and "\<And>result r. parse result = Inr r \<Longrightarrow> P (summary r)"
    and "\<And>s. s \<noteq> [] \<Longrightarrow> P (JStr s)"
  shows "P (summary r)"
proof -
  have "P (JStr result)" if "10 < length result" for result :: jstring
    using that by (intro assms(4)) auto
  with summarize_body_result[OF assms(2)] assms(1,3,4) show ?thesis by auto
qed

lemma summarizeAndTranslate_summary:
  assumes "title \<noteq> []" and "summarizeAndTranslate env title text w = (Inr r, w')"
  shows "\<exists>s. summary r = JStr s \<and> s \<noteq> []"
proof (cases "summarize_body env SummarizeTrPrompt (parse_tr env title) title text w")
  case (Pair a w1)
  show ?thesis
  proof (cases a)
    case (Inl e)
    with Pair assms(2) have "title_fallback env title w1 = (r, w')"
      by (simp add: summarizeAndTranslate_def split: prod.splits)
    with assms(1) show ?thesis by (rule title_fallback_summary)
  next
    case (Inr r')
    with Pair assms(2) have "r' = r" by (simp add: summarizeAndTranslate_def)
    with Pair Inr show ?thesis
      using summarize_body_summary[OF assms(1), of env SummarizeTrPrompt "parse_tr env title" "text" w r w1
          "\<lambda>v. \<exists>s. v = JStr s \<and> s \<noteq> []"]
        parse_tr_summary[OF assms(1)] by blast
  qed
qed

lemma parse_en_summary:
  assumes "title \<noteq> []" and "parse_en env title result = Inr r"
  shows "(\<exists>s. summary r = JStr s \<and> s \<noteq> []) \<or> (\<exists>xs. summary r = JArr xs) \<or> (\<exists>kvs. summary r = JObj kvs)"
  using assms unfolding parse_en_def
  apply (auto split: option.splits sum.splits if_splits)
  subgoal for parsed sv by (cases sv) auto
  done

lemma summarizeInEnglish_summary:
  assumes "title \<noteq> []" and "summarizeInEnglish env title text w = (Inr r, w')"
  shows "(\<exists>s. summary r = JStr s \<and> s \<noteq> []) \<or> (\<exists>xs. summary r = JArr xs) \<or> (\<exists>kvs. summary r = JObj kvs)"
proof (cases "summarize_body env SummarizeEnPrompt (parse_en env title) title text w")
  case (Pair a w1)
  show ?thesis
  proof (cases a)
    case (Inl e)
    with Pair assms have "r = \<lparr>summary = JStr title, sentiment = neutral\<rparr>"
      by (simp add: summarizeInEnglish_def)
    with assms(1) show ?thesis by simp
  next
    case (Inr r')
    with Pair assms(2) have "r' = r" by (simp add: summarizeInEnglish_def)
    with Pair Inr show ?thesis
      using summarize_body_summary[OF assms(1), of env SummarizeEnPrompt "parse_en env title" "text" w r w1
          "\<lambda>v. (\<exists>s. v = JStr s \<and> s \<noteq> []) \<or> (\<exists>xs. v = JArr xs) \<or> (\<exists>kvs. v = JObj kvs)"]
        parse_en_summary[OF assms(1)] by blast
  qed
qed

section \<open>Sentiment\<close>

lemma coerce_sentiment_closed: "coerce_sentiment v \<in> {positive, negative, neutral}"
  unfolding coerce_sentiment_def by (simp split: option.splits)

lemma coerce_sentiment_outside:
  "v \<notin> {Some positive, Some negative, Some neutral} \<Longrightarrow> coerce_sentiment v = neutral"
  unfolding coerce_sentiment_def by (auto split: option.splits)

lemma parse_tr_sentiment:
  "parse_tr env title result = Inr r \<Longrightarrow>
     \<exists>parsed sent. json_parse env (strip_fence result) = Some parsed \<and>
       get_prop parsed (js ''sentiment'') = Inr sent \<and> sentiment r = coerce_sentiment sent"
  unfolding parse_tr_def Let_def
  by (auto split: option.splits sum.splits json.splits if_splits)

lemma parse_en_sentiment:
  "parse_en env title result = Inr r \<Longrightarrow>
     \<exists>parsed sent. json_parse env (strip_fence result) = Some parsed \<and>
       get_prop parsed (js ''sentiment'') = Inr sent \<and> sentiment r = coerce_sentiment sent"
  unfolding parse_en_def Let_def
  by (auto split: option.splits sum.splits json.splits if_splits)

lemma summarize_body_sentiment:
  assumes "summarize_body env p parse title text w = (Inr r, w')"
    and "\<And>result r. parse result = Inr r \<Longrightarrow> sentiment r \<in> {positive, negative, neutral}"
  shows "sentiment r \<in> {positive, negative, neutral}"
  using assms unfolding summarize_body_def Let_def parse_failed_def
  by (auto split: if_splits prod.splits sum.splits)

lemma title_fallback_sentiment: "title_fallback env title w = (r, w') \<Longrightarrow> sentiment r = neutral"
  unfolding title_fallback_def Let_def by (auto split: prod.splits sum.splits if_splits)

lemma parse_tr_closed: "parse_tr env title result = Inr r \<Longrightarrow> sentiment r \<in> {positive, negative, neutral}"
  using parse_tr_sentiment[of env title result r] coerce_sentiment_closed by metis

lemma parse_en_closed: "parse_en env title result = Inr r \<Longrightarrow> sentiment r \<in> {positive, negative, neutral}"
  using parse_en_sentiment[of env title result r] coerce_sentiment_closed by metis

lemma summarizeAndTranslate_sentiment:
  assumes "summarizeAndTranslate env title text w = (Inr r, w')"
  shows "sentiment r \<in> {positive, negative, neutral}"
proof (cases "summarize_body env SummarizeTrPrompt (parse_tr env title) title text w")
  case (Pair a w1)
  show ?thesis
  proof (cases a)
    case (Inl e)
    with Pair assms have "title_fallback env title w1 = (r, w')"
      by (simp add: summarizeAndTranslate_def split: prod.splits)
    then show ?thesis by (simp add: title_fallback_sentiment)
  next
    case (Inr r')
    with Pair assms have "r' = r" by (simp add: summarizeAndTranslate_def)
    with Pair Inr show ?thesis
      using summarize_body_sentiment[of env SummarizeTrPrompt "parse_tr env title" title "text" w r w1]
        parse_tr_closed by blast
  qed
qed

lemma summarizeInEnglish_sentiment:
  assumes "summarizeInEnglish env title text w = (Inr r, w')"
  shows "sentiment r \<in> {positive, negative, neutral}"
proof (cases "summarize_body env SummarizeEnPrompt (parse_en env title) title text w")
  case (Pair a w1)
  show ?thesis
  proof (cases a)
    case (Inl e)
    with Pair assms have "r = \<lparr>summary = JStr title, sentiment = neutral\<rparr>"
      by (simp add: summarizeInEnglish_def)
    then show ?thesis by simp
  next
    case (Inr r')
    with Pair assms have "r' = r" by (simp add: summarizeInEnglish_def)
    with Pair Inr show ?thesis
      using summarize_body_sentiment[of env SummarizeEnPrompt "parse_en env title" title "text" w r w1]
        parse_en_closed by blast
  qed
qed


lemma coerce_sentiment_cases: "coerce_sentiment v = neutral \<or> v = Some (coerce_sentiment v)"
  unfolding coerce_sentiment_def by (simp split: option.splits)

lemma summarize_body_answer:
  assumes "summarize_body env p parse title text w = (Inr r, w')"
  shows "r = \<lparr>summary = JStr title, sentiment = neutral\<rparr> \<or>
         (\<exists>result. model_answer env p title text w = (Inr result, w') \<and>
            (parse result = Inr r \<or> r = \<lparr>summary = JStr result, sentiment = neutral\<rparr>))"
  using assms unfolding summarize_body_def model_answer_def Let_def parse_failed_def
  by (auto split: if_splits prod.splits sum.splits)

lemma parsed_sentiment_or_neutral:
  assumes "summarize_body env p parse title text w = (Inr r, w')"
    and "\<And>result r. parse result = Inr r \<Longrightarrow>
           \<exists>parsed sent. json_parse env (strip_fence result) = Some parsed \<and>
             get_prop parsed (js ''sentiment'') = Inr sent \<and> sentiment r = coerce_sentiment sent"
  shows "sentiment r = neutral \<or>
         (\<exists>result w1 parsed. model_answer env p title text w = (Inr result, w1) \<and>
            json_parse env (strip_fence result) = Some parsed \<and>
            get_prop parsed (js ''sentiment'') = Inr (Some (sentiment r)))"
proof -
  from summarize_body_answer[OF assms(1)]
  consider "sentiment r = neutral"
    | result where "model_answer env p title text w = (Inr result, w')" "parse result = Inr r"
    by auto
  then show ?thesis
  proof cases
    case 1
    then show ?thesis by simp
  next
    case 2
    from assms(2)[OF 2(2)] obtain parsed sent
      where p: "json_parse env (strip_fence result) = Some parsed"
        "get_prop parsed (js ''sentiment'') = Inr sent" "sentiment r = coerce_sentiment sent"
      by blast
    from coerce_sentiment_cases[of sent] p(3)
    have "sentiment r = neutral \<or> sent = Some (sentiment r)" by simp
    with 2(1) p(1,2) show ?thesis by blast
  qed
qed

lemma summarizeAndTranslate_origin:
  assumes "summarizeAndTranslate env title text w = (Inr r, w')"
  shows "sentiment r = neutral \<or>
         (\<exists>result w1 parsed. model_answer env SummarizeTrPrompt title text w = (Inr result, w1) \<and>
            json_parse env (strip_fence result) = Some parsed \<and>
            get_prop parsed (js ''sentiment'') = Inr (Some (sentiment r)))"
proof (cases "summarize_body env SummarizeTrPrompt (parse_tr env title) title text w")
  case (Pair a w1)
  show ?thesis
  proof (cases a)
    case (Inl e)
    with Pair assms have "title_fallback env title w1 = (r, w')"
      by (simp add: summarizeAndTranslate_def split: prod.splits)
    then show ?thesis by (simp add: title_fallback_sentiment)
  next
    case (Inr r')
    with Pair assms have "r' = r" by (simp add: summarizeAndTranslate_def)
    with Pair Inr have "summarize_body env SummarizeTrPrompt (parse_tr env title) title text w = (Inr r, w1)"
      by simp
    then show ?thesis by (rule parsed_sentiment_or_neutral) (rule parse_tr_sentiment)
  qed
qed

lemma summarizeInEnglish_origin:
  assumes "summarizeInEnglish env title text w = (Inr r, w')"
  shows "sentiment r = neutral \<or>
         (\<exists>result w1 parsed. model_answer env SummarizeEnPrompt title text w = (Inr result, w1) \<and>
            json_parse env (strip_fence result) = Some parsed \<and>
            get_prop parsed (js ''sentiment'') = Inr (Some (sentiment r)))"
proof (cases "summarize_body env SummarizeEnPrompt (parse_en env title) title text w")
  case (Pair a w1)
  show ?thesis
  proof (cases a)
    case (Inl e)
    with Pair assms have "r = \<lparr>summary = JStr title, sentiment = neutral\<rparr>"
      by (simp add: summarizeInEnglish_def)
    then show ?thesis by simp
  next
    case (Inr r')
    with Pair assms have "r' = r" by (simp add: summarizeInEnglish_def)
    with Pair Inr have "summarize_body env SummarizeEnPrompt (parse_en env title) title text w = (Inr r, w1)"
      by simp
    then show ?thesis by (rule parsed_sentiment_or_neutral) (rule parse_en_sentiment)
  qed
qed

lemma outside_is_neutral:
  assumes "sentiment r \<in> {positive, negative, neutral}"
    and "sentiment r = neutral \<or>
         (\<exists>result w1 parsed. answer = (Inr result, w1) \<and>
            json_parse env (strip_fence result) = Some parsed \<and>
            get_prop parsed (js ''sentiment'') = Inr (Some (sentiment r)))"
    and "answer = (Inr result, w1)"
    and "json_parse env (strip_fence result) = Some parsed"
    and "get_prop parsed (js ''sentiment'') = Inr sent"
    and "sent \<notin> {Some positive, Some negative, Some neutral}"
  shows "sentiment r = neutral"
  using assms by auto


text \<open>
  C3. Whatever the providers do, both summarizers fulfil with a sentiment that is one
  of the three strings \<open>positive\<close>, \<open>negative\<close>, \<open>neutral\<close>. A sentiment other than
  \<open>neutral\<close> is returned only when the model answered the call and it is the
  \<open>sentiment\<close> property of the parsed answer. So when the parsed answer has a
  \<open>sentiment\<close> outside the three strings (a number, \<open>Positive!\<close>) or has none, the
  summarizer returns \<open>neutral\<close>.
\<close>

theorem sentiment_closure:
  "(\<exists>r w'. summarizeAndTranslate env title text w = (Inr r, w') \<and>
      sentiment r \<in> {positive, negative, neutral} \<and>
      (sentiment r = neutral \<or>
       (\<exists>result w1 parsed.
          model_answer env SummarizeTrPrompt title text w = (Inr result, w1) \<and>
          json_parse env (strip_fence result) = Some parsed \<and>
          get_prop parsed (js ''sentiment'') = Inr (Some (sentiment r))))) \<and>
   (\<exists>r w'. summarizeInEnglish env title text w = (Inr r, w') \<and>
      sentiment r \<in> {positive, negative, neutral} \<and>
      (sentiment r = neutral \<or>
       (\<exists>result w1 parsed.
          model_answer env SummarizeEnPrompt title text w = (Inr result, w1) \<and>
          json_parse env (strip_fence result) = Some parsed \<and>
          get_prop parsed (js ''sentiment'') = Inr (Some (sentiment r))))) \<and>
   (\<forall>result w1 parsed sent.
      model_answer env SummarizeTrPrompt title text w = (Inr result, w1) \<and>
      json_parse env (strip_fence result) = Some parsed \<and>
      get_prop parsed (js ''sentiment'') = Inr sent \<and>
      sent \<notin> {Some positive, Some negative, Some neutral} \<longrightarrow>
        (\<exists>r w'. summarizeAndTranslate env title text w = (Inr r, w') \<and> sentiment r = neutral)) \<and>
   (\<forall>result w1 parsed sent.
      model_answer env SummarizeEnPrompt title text w = (Inr result, w1) \<and>
      json_parse env (strip_fence result) = Some parsed \<and>
      get_prop parsed (js ''sentiment'') = Inr sent \<and>
      sent \<notin> {Some positive, Some negative, Some neutral} \<longrightarrow>
        (\<exists>r w'. summarizeInEnglish env title text w = (Inr r, w') \<and> sentiment r = neutral))"
proof -
  obtain r w' where tr: "summarizeAndTranslate env title text w = (Inr r, w')"
    using summarizeAndTranslate_fulfils[of env title "text" w] by blast
  note tr_in = summarizeAndTranslate_sentiment[OF tr] and tr_from = summarizeAndTranslate_origin[OF tr]
  obtain q v' where en: "summarizeInEnglish env title text w = (Inr q, v')"
    using summarizeInEnglish_fulfils[of env title "text" w] by blast
  note en_in = summarizeInEnglish_sentiment[OF en] and en_from = summarizeInEnglish_origin[OF en]
  show ?thesis
  proof (intro conjI allI impI)
    from tr tr_in tr_from
    show "\<exists>r w'. summarizeAndTranslate env title text w = (Inr r, w') \<and>
      sentiment r \<in> {positive, negative, neutral} \<and>
      (sentiment r = neutral \<or>
       (\<exists>result w1 parsed.
          model_answer env SummarizeTrPrompt title text w = (Inr result, w1) \<and>
          json_parse env (strip_fence result) = Some parsed \<and>
          get_prop parsed (js ''sentiment'') = Inr (Some (sentiment r))))"
      by blast
  next
    from en en_in en_from
    show "\<exists>r w'. summarizeInEnglish env title text w = (Inr r, w') \<and>
      sentiment r \<in> {positive, negative, neutral} \<and>
      (sentiment r = neutral \<or>
       (\<exists>result w1 parsed.
          model_answer env SummarizeEnPrompt title text w = (Inr result, w1) \<and>
          json_parse env (strip_fence result) = Some parsed \<and>
          get_prop parsed (js ''sentiment'') = Inr (Some (sentiment r))))"
      by blast
  next
    fix result w1 parsed sent
    assume "model_answer env SummarizeTrPrompt title text w = (Inr result, w1) \<and>
      json_parse env (strip_fence result) = Some parsed \<and>
      get_prop parsed (js ''sentiment'') = Inr sent \<and>
      sent \<notin> {Some positive, Some negative, Some neutral}"
    with tr_in tr_from have "sentiment r = neutral"
      by (intro outside_is_neutral[of r _ env result w1 parsed sent]) auto
    with tr show "\<exists>r w'. summarizeAndTranslate env title text w = (Inr r, w') \<and> sentiment r = neutral"
      by blast
  next
    fix result w1 parsed sent
    assume "model_answer env SummarizeEnPrompt title text w = (Inr result, w1) \<and>
      json_parse env (strip_fence result) = Some parsed \<and>
      get_prop parsed (js ''sentiment'') = Inr sent \<and>
      sent \<notin> {Some positive, Some negative, Some neutral}"
    with en_in en_from have "sentiment q = neutral"
      by (intro outside_is_neutral[of q _ env result w1 parsed sent]) auto
    with en show "\<exists>r w'. summarizeInEnglish env title text w = (Inr r, w') \<and> sentiment r = neutral"
      by blast
  qed
qed

text \<open>
  The model answers \<open>Positive!\<close> to the Turkish summarizer, the number 1 to the English
  one, and no sentiment at all to the English one: each time the sentiment returned is
  \<open>neutral\<close>.
\<close>

theorem sentiment_closure_witness:
  "(\<exists>r w'. summarizeAndTranslate (model_env raw_loud parsed_loud) (js ''ETH surges'') None (0, []) = (Inr r, w') \<and>
      sentiment r = neutral) \<and>
   (\<exists>r w'. summarizeInEnglish (model_env raw_numeric parsed_numeric) (js ''ETH surges'') None (0, []) = (Inr r, w') \<and>
      sentiment r = neutral) \<and>
   (\<exists>r w'. summarizeInEnglish (model_env raw_missing parsed_missing) (js ''ETH surges'') None (0, []) = (Inr r, w') \<and>
      sentiment r = neutral)"
proof (intro conjI)
  let ?env = "model_env raw_loud parsed_loud"
  have a: "model_answer ?env SummarizeTrPrompt (js ''ETH surges'') None (0, []) = (Inr raw_loud, (1, []))"
    by code_simp
  have b: "json_parse ?env (strip_fence raw_loud) = Some parsed_loud"
    by code_simp
  have c: "get_prop parsed_loud (js ''sentiment'') = Inr (Some (JStr (js ''Positive!'')))"
    by code_simp
  have d: "Some (JStr (js ''Positive!'')) \<notin> {Some positive, Some negative, Some neutral}"
    by (simp add: positive_def negative_def neutral_def js_def)
  from sentiment_closure[of ?env "js ''ETH surges''" None "(0, [])"] a b c d
  show "\<exists>r w'. summarizeAndTranslate ?env (js ''ETH surges'') None (0, []) = (Inr r, w') \<and>
      sentiment r = neutral"
    by blast
next
  let ?env = "model_env raw_numeric parsed_numeric"
  have a: "model_answer ?env SummarizeEnPrompt (js ''ETH surges'') None (0, []) = (Inr raw_numeric, (1, []))"
    by code_simp
  have b: "json_parse ?env (strip_fence raw_numeric) = Some parsed_numeric"
    by code_simp
  have c: "get_prop parsed_numeric (js ''sentiment'') = Inr (Some (JNum 1))"
    by code_simp
  have d: "Some (JNum 1) \<notin> {Some positive, Some negative, Some neutral}"
    by (simp add: positive_def negative_def neutral_def)
  from sentiment_closure[of ?env "js ''ETH surges''" None "(0, [])"] a b c d
  show "\<exists>r w'. summarizeInEnglish ?env (js ''ETH surges'') None (0, []) = (Inr r, w') \<and>
      sentiment r = neutral"
    by blast
next
  let ?env = "model_env raw_missing parsed_missing"
  have a: "model_answer ?env SummarizeEnPrompt (js ''ETH surges'') None (0, []) = (Inr raw_missing, (1, []))"
    by code_simp
  have b: "json_parse ?env (strip_fence raw_missing) = Some parsed_missing"
    by code_simp
  have c: "get_prop parsed_missing (js ''sentiment'') = Inr None"
    by code_simp
  have d: "None \<notin> {Some positive, Some negative, Some neutral}"
    by simp
  from sentiment_closure[of ?env "js ''ETH surges''" None "(0, [])"] a b c d
  show "\<exists>r w'. summarizeInEnglish ?env (js ''ETH surges'') None (0, []) = (Inr r, w') \<and>
      sentiment r = neutral"
    by blast
qed

section \<open>A summary that is too short\<close>

lemma make_content_title: "make_content (js ''ETH surges'') None = js ''ETH surges''"
  by code_simp

lemma title_not_blank: "\<not> blank (js ''ETH surges'')"
  by code_simp

lemma strip_fence_raw_ok: "strip_fence raw_ok = raw_ok"
  by code_simp

lemma scrub_ok: "scrub (js ''ok'') = js ''ok''"
  by code_simp

lemma parse_tr_ok:
  assumes "json_parse env raw_ok = Some parsed_ok"
  shows "parse_tr env (js ''ETH surges'') raw_ok =
           Inr \<lparr>summary = JStr (js ''ETH surges''), sentiment = positive\<rparr>"
proof -
  have s: "get_prop parsed_ok (js ''summary'') = Inr (Some (JStr (js ''ok'')))"
    by code_simp
  have t: "get_prop parsed_ok (js ''sentiment'') = Inr (Some positive)"
    by code_simp
  have c: "coerce_sentiment (Some positive) = positive"
    by (simp add: coerce_sentiment_def)
  have k: "js ''ok'' \<noteq> []" "\<not> 10 < length (js ''ok'')"
    by (simp_all add: js_def)
  show ?thesis
    unfolding parse_tr_def by (simp add: strip_fence_raw_ok assms s t c k scrub_ok)
qed


text \<open>
  C8. Title \<open>ETH surges\<close>, no body: when the first request to the model is answered
  with the text \<open>raw_ok\<close>, which \<open>JSON.parse\<close> reads as the object \<open>parsed_ok\<close>, the
  result of \<open>summarizeAndTranslate\<close> has the title for its summary (the summary \<open>ok\<close>
  is not longer than 10 code units) and the sentiment \<open>positive\<close> of the model.
\<close>

theorem short_summary_rejected:
  assumes "openaiChatCompletion env SummarizeTrPrompt (js ''ETH surges'') w = (Inr response, w')"
    and "first_content response = raw_ok"
    and "json_parse env raw_ok = Some parsed_ok"
  shows "summarizeAndTranslate env (js ''ETH surges'') None w =
           (Inr \<lparr>summary = JStr (js ''ETH surges''), sentiment = positive\<rparr>, w')"
proof -
  have "ask_model env SummarizeTrPrompt (js ''ETH surges'') w = (Inr raw_ok, w')"
    using assms(1,2) by (simp add: ask_model_def)
  then have "retryWithBackoff env (ask_model env SummarizeTrPrompt (js ''ETH surges'')) 3 1000 w =
               (Inr raw_ok, w')"
    by (rule retry_first_attempt) simp
  then have "summarize_body env SummarizeTrPrompt (parse_tr env (js ''ETH surges'')) (js ''ETH surges'') None w =
               (Inr \<lparr>summary = JStr (js ''ETH surges''), sentiment = positive\<rparr>, w')"
    unfolding summarize_body_def
    by (simp add: make_content_title title_not_blank parse_tr_ok[OF assms(3)])
  then show ?thesis by (simp add: summarizeAndTranslate_def)
qed

theorem short_summary_rejected_witness:
  "summarizeAndTranslate (model_env raw_ok parsed_ok) (js ''ETH surges'') None (0, []) =
     (Inr \<lparr>summary = JStr (js ''ETH surges''), sentiment = positive\<rparr>, (1, []))"
proof -
  have a: "openaiChatCompletion (model_env raw_ok parsed_ok) SummarizeTrPrompt (js ''ETH surges'') (0, []) =
          (Inr (reply raw_ok), (1, []))"
    by (simp add: model_env_def offline_env_def)
  have b: "first_content (reply raw_ok) = raw_ok"
    by (simp add: first_content_def reply_def)
  have c: "json_parse (model_env raw_ok parsed_ok) raw_ok = Some parsed_ok"
    by (simp add: model_env_def offline_env_def)
  show ?thesis by (rule short_summary_rejected[OF a b c])
qed

section \<open>The normalizer when cheerio throws\<close>

text \<open>
  C6. When cheerio throws, the \<open>catch\<close> block of \<open>stripHtml\<close> cannot raise, but it
  does not collapse or trim white space: in line 102 the operator \<open>||\<close> separates
  \<open>html.replace(/<[^>]*>/g, ' ').split('|')[0]\<close> from the rest of the chain, so that
  the calls of lines 103 to 105 apply to the right operand only, which is evaluated when
  the left one is empty. The input \<open>  Hello   world  \<close> comes back as it is; an input
  that starts with a pipe has its white space collapsed and keeps its tags and its pipe.
\<close>

theorem stripHtml_catch_keeps_whitespace:
  "stripHtml no_parser_env (js ''  Hello   world  '') = js ''  Hello   world  '' \<and>
   stripHtml no_parser_env (js ''|<b>x</b>   y'') = js ''|<b>x</b> y''"
  by code_simp

section \<open>Batch translation\<close>

lemma promise_all_fulfilled:
  "(\<And>p. p \<in> set ps \<Longrightarrow> \<exists>v. p = Inr v) \<Longrightarrow> \<exists>vs. promise_all ps = Inr vs \<and> map Inr vs = ps"
proof (induction ps)
  case Nil
  then show ?case by simp
next
  case (Cons p ps)
  then obtain v where p: "p = Inr v" by auto
  from Cons obtain vs where "promise_all ps = Inr vs" "map Inr vs = ps" by auto
  with p show ?case by simp
qed

lemma translateBatch_items:
  "map Inr (translateBatch env texts worlds) =
     map (\<lambda>(i, text). fst (translateToTurkish env text (worlds i))) (enumerate 0 texts)"
proof -
  let ?ps = "map (\<lambda>(i, text). fst (translateToTurkish env text (worlds i))) (enumerate 0 texts)"
  have "\<exists>v. p = Inr v" if "p \<in> set ?ps" for p
  proof -
    from that obtain i t where "p = fst (translateToTurkish env t (worlds i))" by auto
    with translateToTurkish_fulfils[of env t "worlds i"] show ?thesis by auto
  qed
  then obtain vs where "promise_all ?ps = Inr vs" "map Inr vs = ?ps"
    using promise_all_fulfilled[of ?ps] by blast
  then show ?thesis by (simp add: translateBatch_def)
qed

lemma translateBatch_length: "length (translateBatch env texts worlds) = length texts"
  using arg_cong[OF translateBatch_items[of env texts worlds], of length] by simp

lemma translateBatch_nth:
  assumes "i < length texts"
  shows "Inr (translateBatch env texts worlds ! i) = fst (translateToTurkish env (texts ! i) (worlds i))"
proof -
  from assms have "Inr (translateBatch env texts worlds ! i) = map Inr (translateBatch env texts worlds) ! i"
    by (simp add: translateBatch_length)
  also have "\<dots> = fst (translateToTurkish env (texts ! i) (worlds i))"
    using assms by (simp add: translateBatch_items nth_enumerate_eq)
  finally show ?thesis .
qed

text \<open>
  C9. The batch has one translation for each text, in the order of the texts: the
  translation at index \<open>i\<close> is what \<open>translateToTurkish\<close> fulfils with for the text at
  index \<open>i\<close> in the world that item meets (no item rejects, so that the \<open>catch\<close> of
  line 195, which would return the raw texts for all items, is never taken). What the
  providers do to the requests of the other items does not change it.
\<close>

theorem batch_order_and_isolation:
  "length (translateBatch env texts worlds) = length texts \<and>
   (\<forall>i<length texts.
      Inr (translateBatch env texts worlds ! i) = fst (translateToTurkish env (texts ! i) (worlds i))) \<and>
   (\<forall>i<length texts.
      worlds' i = worlds i \<longrightarrow>
        translateBatch env texts worlds' ! i = translateBatch env texts worlds ! i)"
proof (intro conjI allI impI)
  show "length (translateBatch env texts worlds) = length texts"
    by (rule translateBatch_length)
next
  fix i assume "i < length texts"
  then show "Inr (translateBatch env texts worlds ! i) = fst (translateToTurkish env (texts ! i) (worlds i))"
    by (rule translateBatch_nth)
next
  fix i assume i: "i < length texts" and same: "worlds' i = worlds i"
  have "(Inr (translateBatch env texts worlds' ! i) :: err + jstring) = Inr (translateBatch env texts worlds ! i)"
    using translateBatch_nth[OF i, of env worlds'] translateBatch_nth[OF i, of env worlds] same by simp
  then show "translateBatch env texts worlds' ! i = translateBatch env texts worlds ! i" by simp
qed

text \<open>
  Two texts, each item with a world of its own. In the first run the fast provider
  rejects the request of item 0 and answers the one of item 1; in the second run it
  answers both. Item 1 gets the same translation in both runs.
\<close>

theorem batch_order_and_isolation_witness:
  "translateBatch proxy_env demo_texts (\<lambda>i. (1, [])) ! 1 =
     translateBatch proxy_env demo_texts (\<lambda>i. (i, [])) ! 1 \<and>
   translateBatch proxy_env demo_texts (\<lambda>i. (i, [])) =
     [js ''Bitcoin hits a new high'', js ''[tr] Ethereum falls again today''] \<and>
   translateBatch proxy_env demo_texts (\<lambda>i. (1, [])) =
     [js ''[tr] Bitcoin hits a new high'', js ''[tr] Ethereum falls again today'']"
proof -
  have len: "(1::nat) < length demo_texts" by (simp add: demo_texts_def)
  from batch_order_and_isolation[of proxy_env demo_texts "\<lambda>i. (i, [])" "\<lambda>i. (1, [])"] len
  have "translateBatch proxy_env demo_texts (\<lambda>i. (1, [])) ! 1 =
          translateBatch proxy_env demo_texts (\<lambda>i. (i, [])) ! 1"
    by simp
  moreover have "translateBatch proxy_env demo_texts (\<lambda>i. (i, [])) =
      [js ''Bitcoin hits a new high'', js ''[tr] Ethereum falls again today'']"
    by code_simp
  moreover have "translateBatch proxy_env demo_texts (\<lambda>i. (1, [])) =
      [js ''[tr] Bitcoin hits a new high'', js ''[tr] Ethereum falls again today'']"
    by code_simp
  ultimately show ?thesis by simp
qed

section \<open>White space, the matcher and the structured path of \<open>stripHtml\<close>\<close>

declare replace_all.simps [simp del]

subsection \<open>trim\<close>

lemma dropWhile_rev_prefix: "rev (dropWhile P (rev s)) @ rev (takeWhile P (rev s)) = s"
proof -
  have "rev (takeWhile P (rev s) @ dropWhile P (rev s)) = s" by simp
  then show ?thesis by (simp only: rev_append)
qed

lemma hd_dropWhile_rev:
  assumes "rev (dropWhile P (rev s)) \<noteq> []"
  shows "hd (rev (dropWhile P (rev s))) = hd s"
proof -
  from dropWhile_rev_prefix[of P s] assms show ?thesis
    by (metis hd_append2)
qed

lemma last_dropWhile_rev:
  assumes "rev (dropWhile P (rev s)) \<noteq> []"
  shows "\<not> P (last (rev (dropWhile P (rev s))))"
proof -
  from assms have ne: "dropWhile P (rev s) \<noteq> []" by simp
  then have "\<not> P (hd (dropWhile P (rev s)))" by (rule hd_dropWhile)
  with ne show ?thesis by (simp add: last_rev)
qed

lemma trim_Nil_iff: "trim s = [] \<longleftrightarrow> (\<forall>c\<in>set s. is_ws c)"
proof
  assume "trim s = []"
  then have "\<forall>c\<in>set (dropWhile is_ws s). is_ws c"
    by (simp add: trim_def dropWhile_eq_Nil_conv)
  then have "dropWhile is_ws s = []"
    using hd_dropWhile[of is_ws s] by (cases "dropWhile is_ws s") auto
  then show "\<forall>c\<in>set s. is_ws c" by (simp add: dropWhile_eq_Nil_conv)
next
  assume "\<forall>c\<in>set s. is_ws c"
  then show "trim s = []" by (auto simp: trim_def dropWhile_eq_Nil_conv dest: set_dropWhileD)
qed

lemma blank_iff: "blank s \<longleftrightarrow> (\<forall>c\<in>set s. is_ws c)"
  unfolding blank_def using trim_Nil_iff[of s] by auto

lemma trim_ends:
  assumes "trim s \<noteq> []"
  shows "\<not> is_ws (hd (trim s))" and "\<not> is_ws (last (trim s))"
proof -
  let ?y = "dropWhile is_ws s"
  from assms have ne: "rev (dropWhile is_ws (rev ?y)) \<noteq> []" by (simp add: trim_def)
  then have "?y \<noteq> []" by (auto dest: set_dropWhileD)
  then have "\<not> is_ws (hd ?y)" by (rule hd_dropWhile)
  with hd_dropWhile_rev[OF ne] show "\<not> is_ws (hd (trim s))" by (simp add: trim_def)
  from last_dropWhile_rev[OF ne] show "\<not> is_ws (last (trim s))" by (simp add: trim_def)
qed

lemma trim_fixed:
  assumes "s = [] \<or> (\<not> is_ws (hd s) \<and> \<not> is_ws (last s))"
  shows "trim s = s"
proof (cases "s = []")
  case True
  then show ?thesis by (simp add: trim_def)
next
  case False
  with assms have h: "\<not> is_ws (hd s)" and l: "\<not> is_ws (last s)" by auto
  from False h have "dropWhile is_ws s = s" by (cases s) auto
  moreover from False l have "dropWhile is_ws (rev s) = rev s"
    by (cases "rev s") (auto simp: last_rev hd_rev)
  ultimately show ?thesis by (simp add: trim_def)
qed

lemma trim_idem: "trim (trim s) = trim s"
  using trim_ends[of s] by (intro trim_fixed) auto

lemma trim_not_blank: "trim s \<noteq> [] \<Longrightarrow> \<not> blank (trim s)"
  by (simp add: blank_def trim_idem)

subsection \<open>The matcher on particular expressions\<close>

lemma m_star_class: "m (Star (Chr cs)) s Some = Some (dropWhile (cs_mem cs) s)"
  by (induction s) simp_all

lemma rmatch_spaces:
  "rmatch re_spaces s = (case s of [] \<Rightarrow> None | c # t \<Rightarrow> if is_ws c then Some (dropWhile is_ws t) else None)"
proof (cases s)
  case Nil
  then show ?thesis by (simp add: rmatch_def re_spaces_def Plus_def)
next
  case (Cons c t)
  have "m (Star (Chr Ws)) t Some = Some (dropWhile is_ws t)"
    using m_star_class[of Ws t] by (simp add: cs_mem.simps[abs_def])
  then show ?thesis using Cons
    by (simp add: rmatch_def re_spaces_def Plus_def del: m.simps(4))
qed

lemma collapse_Nil: "replace_all re_spaces [0x20] [] = []"
  by (subst replace_all.simps) (simp add: rmatch_spaces)

lemma collapse_Cons:
  "replace_all re_spaces [0x20] (c # t) =
     (if is_ws c then 0x20 # replace_all re_spaces [0x20] (dropWhile is_ws t)
      else c # replace_all re_spaces [0x20] t)"
proof -
  have "length (dropWhile is_ws t) < Suc (length t)"
    using length_dropWhile_le[of is_ws t] by simp
  then show ?thesis
    by (subst replace_all.simps) (simp add: rmatch_spaces)
qed

lemma no_match_replace: "\<not> re_test r s \<Longrightarrow> replace_all r rep s = s"
  by (induction s) (subst replace_all.simps, simp)+

lemma starts_no_ws_fails:
  "starts_no_ws r \<Longrightarrow> s = [] \<or> is_ws (hd s) \<Longrightarrow> m r s k = None"
proof (induction r arbitrary: s k)
  case (Chr cs)
  have "cs_no_ws cs \<Longrightarrow> is_ws c \<Longrightarrow> \<not> cs_mem cs c" for c
    by (induction cs) auto
  with Chr show ?case by (cases s) auto
qed auto

lemma blank_replace:
  "starts_no_ws r \<Longrightarrow> \<forall>c\<in>set s. is_ws c \<Longrightarrow> replace_all r rep s = s"
proof (induction s)
  case Nil
  then show ?case
    by (subst replace_all.simps) (simp add: rmatch_def starts_no_ws_fails)
next
  case (Cons c s)
  then have "rmatch r (c # s) = None" by (simp add: rmatch_def starts_no_ws_fails)
  with Cons show ?case by (subst replace_all.simps) simp
qed

lemma absent_first_replace:
  "c0 \<notin> set s \<Longrightarrow> replace_all (Seq (Chr (One c0)) r) rep s = s"
  by (induction s) ((subst replace_all.simps, auto simp: rmatch_def)+)

subsection \<open>Tidy texts\<close>

lemma ws_space: "is_ws 0x20"
  by (simp add: is_ws_def)

lemma ws_line_feed: "is_ws 0x0A"
  by (simp add: is_ws_def)

lemma tidy_collapse: "tidy (replace_all re_spaces [0x20] s)"
proof (induction "length s" arbitrary: s rule: less_induct)
  case less
  show ?case
  proof (cases s)
    case Nil
    then show ?thesis by (simp add: collapse_Nil)
  next
    case (Cons c t)
    show ?thesis
    proof (cases "is_ws c")
      case False
      have "tidy (replace_all re_spaces [0x20] t)" using less Cons by simp
      with False show ?thesis using Cons
        by (cases "replace_all re_spaces [0x20] t") (simp_all add: collapse_Cons)
    next
      case True
      show ?thesis
      proof (cases "dropWhile is_ws t")
        case Nil
        then have "replace_all re_spaces [0x20] (dropWhile is_ws t) = []"
          by (simp only: collapse_Nil)
        with True \<open>s = c # t\<close> show ?thesis by (simp add: collapse_Cons ws_space)
      next
        case (Cons d u)
        then have d: "\<not> is_ws d" using hd_dropWhile[of is_ws t] by simp
        have "length (dropWhile is_ws t) < length s"
          using length_dropWhile_le[of is_ws t] \<open>s = c # t\<close> by simp
        then have "tidy (replace_all re_spaces [0x20] (dropWhile is_ws t))" using less by simp
        with Cons d have "tidy (d # replace_all re_spaces [0x20] u)" by (simp add: collapse_Cons)
        with True d Cons \<open>s = c # t\<close> show ?thesis by (simp add: collapse_Cons)
      qed
    qed
  qed
qed

lemma collapse_tidy: "tidy s \<Longrightarrow> replace_all re_spaces [0x20] s = s"
  by (induction s rule: tidy.induct) (auto simp: collapse_Cons collapse_Nil split: if_splits)

lemma tidy_ws: "tidy s \<Longrightarrow> c \<in> set s \<Longrightarrow> is_ws c \<Longrightarrow> c = 0x20"
  by (induction s rule: tidy.induct) (auto split: if_splits)

lemma tidy_tl: "tidy (c # s) \<Longrightarrow> tidy s"
  by (cases s) auto

lemma tidy_dropWhile: "tidy s \<Longrightarrow> tidy (dropWhile P s)"
  by (induction s) (auto dest: tidy_tl)

lemma tidy_prefix: "tidy (u @ v) \<Longrightarrow> tidy u"
proof (induction u rule: tidy.induct)
  case (2 c)
  then show ?case by (cases v) (auto split: if_splits)
qed auto

lemma tidy_trim: "tidy s \<Longrightarrow> tidy (trim s)"
proof -
  assume "tidy s"
  then have "tidy (dropWhile is_ws s)" by (rule tidy_dropWhile)
  then have "tidy (trim s @ rev (takeWhile is_ws (rev (dropWhile is_ws s))))"
    by (simp add: trim_def dropWhile_rev_prefix)
  then show ?thesis by (rule tidy_prefix)
qed

lemma blank_lines_tidy: "tidy s \<Longrightarrow> replace_all re_blank_lines [0x0A] s = s"
proof -
  assume "tidy s"
  then have "0x0A \<notin> set s" using tidy_ws[of s "0x0A"] ws_line_feed by auto
  then show ?thesis unfolding re_blank_lines_def by (rule absent_first_replace)
qed

lemma clean_whitespace_eq: "clean_whitespace s = trim (replace_all re_spaces [0x20] s)"
  by (simp add: clean_whitespace_def blank_lines_tidy tidy_collapse)

lemma tidy_clean_whitespace: "tidy (clean_whitespace s)"
  by (simp add: clean_whitespace_eq tidy_trim tidy_collapse)

lemma clean_whitespace_fixed: "tidy s \<Longrightarrow> trim s = s \<Longrightarrow> clean_whitespace s = s"
  by (simp add: clean_whitespace_eq collapse_tidy)

lemma clean_whitespace_idem: "clean_whitespace (clean_whitespace s) = clean_whitespace s"
proof (rule clean_whitespace_fixed)
  show "tidy (clean_whitespace s)" by (rule tidy_clean_whitespace)
  show "trim (clean_whitespace s) = clean_whitespace s"
    by (simp add: clean_whitespace_eq trim_idem)
qed

lemma clean_whitespace_blank:
  assumes "\<forall>c\<in>set s. is_ws c"
  shows "clean_whitespace s = []"
proof -
  have "\<forall>c\<in>set (replace_all re_spaces [0x20] s). is_ws c"
  proof (cases s)
    case Nil
    then show ?thesis by (simp add: collapse_Nil)
  next
    case (Cons c t)
    with assms have "dropWhile is_ws t = []" by simp
    then have "replace_all re_spaces [0x20] (dropWhile is_ws t) = []"
      by (simp only: collapse_Nil)
    with Cons assms show ?thesis by (simp add: collapse_Cons ws_space)
  qed
  then show ?thesis by (simp add: clean_whitespace_eq trim_Nil_iff)
qed

subsection \<open>The structured path\<close>

lemma removals_start: "\<forall>r\<in>set removals. starts_no_ws r"
  by (simp add: removals_def re_url_def re_www_def re_tco_def re_source_def re_utm_def re_ref_def
      re_query_def re_rsvp_def re_read_more_def re_click_here_def re_ellipsis_def re_dots_def
      lit_def lit_ci_def ci_def is_ws_def)

lemma foldl_fixed: "(\<And>r. r \<in> set rs \<Longrightarrow> f s r = s) \<Longrightarrow> foldl f s rs = s"
  by (induction rs) simp_all

lemma remove_noise_blank: "\<forall>c\<in>set s. is_ws c \<Longrightarrow> remove_noise s = s"
  unfolding remove_noise_def using removals_start by (intro foldl_fixed) (simp add: blank_replace)

lemma remove_noise_clean: "\<not> list_ex (\<lambda>r. re_test r s) removals \<Longrightarrow> remove_noise s = s"
  unfolding remove_noise_def by (intro foldl_fixed) (simp add: no_match_replace list_ex_iff)

lemma before_pipe_blank:
  assumes "\<forall>c\<in>set s. is_ws c"
  shows "before_pipe_or_all s = s"
proof -
  have "\<not> is_ws 0x7C" by (simp add: is_ws_def)
  with assms have "\<forall>c\<in>set s. c \<noteq> 0x7C" by auto
  then have "before_pipe s = s" by (simp add: before_pipe_def)
  then show ?thesis by (simp add: before_pipe_or_all_def)
qed

lemma strip_text_blank: "blank b \<Longrightarrow> strip_text b = []"
  unfolding blank_iff strip_text_def
  by (simp add: before_pipe_blank remove_noise_blank clean_whitespace_blank)

lemma strip_text_shape:
  "strip_text b = [] \<or>
   (strip_text b = clean_whitespace (remove_noise (before_pipe_or_all b)) \<and> 10 \<le> length (strip_text b))"
  unfolding strip_text_def Let_def by simp

lemma strip_text_not_blank: "strip_text b \<noteq> [] \<Longrightarrow> \<not> blank (strip_text b)"
proof -
  assume ne: "strip_text b \<noteq> []"
  with strip_text_shape[of b] obtain z where z: "strip_text b = clean_whitespace z" by blast
  then have "strip_text b = trim (replace_all re_spaces [0x20] z)" by (simp add: clean_whitespace_eq)
  with ne show ?thesis using trim_not_blank by metis
qed

lemma strip_text_fixed:
  assumes "\<not> has_noise (strip_text b)"
  shows "strip_text (strip_text b) = strip_text b"
proof (cases "strip_text b = []")
  case True
  have "strip_text [] = []" by (rule strip_text_blank) (simp add: blank_def)
  with True show ?thesis by simp
next
  case False
  with strip_text_shape[of b] obtain z
    where z: "strip_text b = clean_whitespace z" and long: "10 \<le> length (strip_text b)" by blast
  from assms have "before_pipe_or_all (strip_text b) = strip_text b"
    and "remove_noise (strip_text b) = strip_text b"
    by (simp_all add: has_noise_def remove_noise_clean)
  moreover have "clean_whitespace (strip_text b) = strip_text b"
    by (simp add: z clean_whitespace_idem)
  ultimately show ?thesis using long by (subst strip_text_def) simp
qed

section \<open>Degradation of the translation\<close>

text \<open>
  A tier gives no translation when its provider rejects or when the answer fails the
  check of the tier.
\<close>

lemma fast_tier_None:
  "fast_tier env c w = (None, w1) \<longleftrightarrow>
     (\<exists>e. translateWithLibreTranslate env c TR w = (Inl e, w1)) \<or>
     (\<exists>l. translateWithLibreTranslate env c TR w = (Inr l, w1) \<and>
          (l = [] \<or> toLowerCase env l = toLowerCase env c \<or> length l \<le> 10))"
  unfolding fast_tier_def by (auto split: prod.splits sum.splits)

lemma fallback_tier_None:
  "fallback_tier env c w = (None, w1) \<longleftrightarrow>
     (\<exists>e. openaiChatCompletion env TranslatePrompt c w = (Inl e, w1)) \<or>
     (\<exists>response. openaiChatCompletion env TranslatePrompt c w = (Inr response, w1) \<and>
          length (first_content response) \<le> 10)"
  unfolding fallback_tier_def Let_def by (auto split: prod.splits sum.splits)



lemma translate_body_tiers:
  assumes "\<not> blank text" and "\<not> blank (stripHtml env text)"
  shows "translate_body env text w =
     (case fast_tier env (stripHtml env text) w of
        (Some translated, w1) \<Rightarrow> (Inr translated, w1)
      | (None, w1) \<Rightarrow>
          (case fallback_tier env (stripHtml env text) w1 of
             (Some translated, w2) \<Rightarrow> (Inr translated, w2)
           | (None, w2) \<Rightarrow> (Inr (stripHtml env text), w2)))"
  using assms unfolding translate_body_def Let_def by simp

lemma translateToTurkish_body: "translateToTurkish env text w = translate_body env text w"
  using translate_body_fulfils[of env "text" w] unfolding translateToTurkish_def by auto

text \<open>On either path of \<open>stripHtml\<close>, for a text and a cleaned text that are not blank:\<close>

lemma translateToTurkish_degraded:
  assumes "\<not> blank text" and "\<not> blank (stripHtml env text)"
    and "fast_tier env (stripHtml env text) w = (None, w1)"
    and "fallback_tier env (stripHtml env text) w1 = (None, w2)"
  shows "translateToTurkish env text w = (Inr (stripHtml env text), w2)"
  by (simp add: translateToTurkish_body translate_body_tiers assms)

text \<open>
  Let cheerio parse the input, with a blank text content for a blank input, and let the
  cleaned text \<open>stripHtml env text\<close> not be empty. When the fast tier and then the
  fallback tier give no translation (the provider rejects, or its answer fails the
  check), \<open>translateToTurkish\<close> fulfils with the cleaned text.
\<close>

lemma degraded_result_is_cleaned_text:
  assumes "cheerio_text env text = Some body"
    and "blank text \<longrightarrow> blank body"
    and "stripHtml env text \<noteq> []"
    and "fast_tier env (stripHtml env text) w = (None, w1)"
    and "fallback_tier env (stripHtml env text) w1 = (None, w2)"
  shows "translateToTurkish env text w = (Inr (stripHtml env text), w2)"
proof -
  from assms(1) have clean: "stripHtml env text = strip_text body" by (simp add: stripHtml_def)
  with assms(3) have "\<not> blank body" using strip_text_blank by auto
  with assms(2) have "\<not> blank text" by auto
  moreover from clean assms(3) have "\<not> blank (stripHtml env text)"
    using strip_text_not_blank by auto
  ultimately show ?thesis
    using assms(4,5) by (rule translateToTurkish_degraded)
qed

text \<open>
  Both providers are down: the text comes back cleaned (white space collapsed, cut at
  the pipe), after one request to each provider.
\<close>

lemma clean_demo:
  "stripHtml offline_env (js ''Bitcoin  hits a new   high | via @news'') = js ''Bitcoin hits a new high''"
  by code_simp

lemma degraded_result_is_cleaned_text_demo:
  "translateToTurkish offline_env (js ''Bitcoin  hits a new   high | via @news'') (0, []) =
     (Inr (js ''Bitcoin hits a new high''), (2, []))"
proof -
  let ?text = "js ''Bitcoin  hits a new   high | via @news''"
  have a: "cheerio_text offline_env ?text = Some ?text" by (simp add: offline_env_def)
  have b: "blank ?text \<longrightarrow> blank ?text" by simp
  have c: "stripHtml offline_env ?text \<noteq> []" unfolding clean_demo by (simp add: js_def)
  have d: "fast_tier offline_env (stripHtml offline_env ?text) (0, []) = (None, (1, []))"
    by (simp add: clean_demo fast_tier_def translateWithLibreTranslate_def offline_env_def)
  have e: "fallback_tier offline_env (stripHtml offline_env ?text) (1, []) = (None, (2, []))"
    by (simp add: clean_demo fallback_tier_def offline_env_def)
  from degraded_result_is_cleaned_text[OF a b c d e] show ?thesis by (simp add: clean_demo)
qed

text \<open>
  C5. When cheerio throws, the \<open>catch\<close> block of \<open>stripHtml\<close> returns the text before
  the first pipe as it is, white space included (the slip of line 102, see C6). For the
  input \<open> | Bitcoin hits a new high\<close> the cleaned text is a single space: it is not
  empty, both providers are down, and yet \<open>translateToTurkish\<close> returns the raw input,
  because the guard of line 135 finds the cleaned text blank.
\<close>

theorem translateToTurkish_returns_raw_input:
  "stripHtml no_parser_env (js '' | Bitcoin hits a new high'') = js '' '' \<and>
   fast_tier no_parser_env (js '' '') (0, []) = (None, (1, [])) \<and>
   fallback_tier no_parser_env (js '' '') (1, []) = (None, (2, [])) \<and>
   translateToTurkish no_parser_env (js '' | Bitcoin hits a new high'') (0, []) =
     (Inr (js '' | Bitcoin hits a new high''), (0, []))"
  by code_simp










section \<open>A second pass of the normalizer\<close>

text \<open>
  C7, as amended. When cheerio parses the input, and the normalized text has no noise
  left and is its own text content for cheerio, a second pass returns it unchanged.
\<close>

theorem stripHtml_fixed_point:
  assumes "cheerio_text env x = Some body"
    and "cheerio_text env (stripHtml env x) = Some (stripHtml env x)"
    and "\<not> has_noise (stripHtml env x)"
  shows "stripHtml env (stripHtml env x) = stripHtml env x"
proof -
  from assms(1) have y: "stripHtml env x = strip_text body" by (simp add: stripHtml_def)
  with assms(2) have "stripHtml env (strip_text body) = strip_text (strip_text body)"
    by (simp add: stripHtml_def)
  with y assms(3) show ?thesis by (simp add: strip_text_fixed)
qed

text \<open>
  C7 as stated fails: line 80 removes \<open>RSVP:\<close> after the URLs were removed, and what
  it leaves can be a URL, which the second pass removes.
\<close>

theorem stripHtml_not_idempotent:
  "stripHtml offline_env (stripHtml offline_env (js ''htRSVP:tp://example.com/abc is here now'')) \<noteq>
     stripHtml offline_env (js ''htRSVP:tp://example.com/abc is here now'')"
  by code_simp

lemma demo_no_noise: "\<not> has_noise (js ''Bitcoin hits a new high'')"
  by code_simp

theorem stripHtml_fixed_point_witness:
  "stripHtml offline_env (js ''Bitcoin hits a new high'') = js ''Bitcoin hits a new high''"
proof -
  let ?x = "js ''Bitcoin  hits a new   high | via @news''"
  have a: "cheerio_text offline_env ?x = Some ?x" by (simp add: offline_env_def)
  have b: "cheerio_text offline_env (stripHtml offline_env ?x) = Some (stripHtml offline_env ?x)"
    by (simp add: offline_env_def)
  have c: "\<not> has_noise (stripHtml offline_env ?x)" by (simp add: clean_demo demo_no_noise)
  from stripHtml_fixed_point[OF a b c] show ?thesis by (simp add: clean_demo)
qed

end
